theory Spec2Isabelle
  imports Complex_Main "HOL-Library.Log_Nat"
begin

section \<open>Python strings\<close>

text \<open>
  A Python \<open>str\<close> is modelled as a \<open>string\<close> whose characters are the code points
  below 256, and a \<open>bytes\<close> object as a \<open>string\<close> of 8-bit values.
\<close>

type_synonym bytes = string

text \<open>\<open>str.isspace\<close> on the code points below 256.\<close>

definition isspace :: "char \<Rightarrow> bool" where
  "isspace c = (c \<in> set [CHR 0x09, CHR 0x0A, CHR 0x0B, CHR 0x0C, CHR 0x0D,
                         CHR 0x1C, CHR 0x1D, CHR 0x1E, CHR 0x1F, CHR 0x20,
                         CHR 0x85, CHR 0xA0])"

text \<open>\<open>s.strip()\<close>: leading and trailing whitespace removed.\<close>

definition strip :: "string \<Rightarrow> string" where
  "strip s = rev (dropWhile isspace (rev (dropWhile isspace s)))"

text \<open>\<open>s.lower()\<close>: A-Z and the upper-case letters of the Latin-1 block move by 32.\<close>

definition lower_char :: "char \<Rightarrow> char" where
  "lower_char c =
     (let n = (of_char c :: nat)
      in if (65 \<le> n \<and> n \<le> 90) \<or> (192 \<le> n \<and> n \<le> 222 \<and> n \<noteq> 215)
         then char_of (n + 32) else c)"

definition lower :: "string \<Rightarrow> string" where
  "lower s = map lower_char s"

text \<open>\<open>sep.join(xs)\<close>.\<close>

fun py_join :: "string \<Rightarrow> string list \<Rightarrow> string" where
  "py_join sep [] = []"
| "py_join sep [x] = x"
| "py_join sep (x # y # ys) = x @ sep @ py_join sep (y # ys)"

text \<open>\<open>s.split(sep)\<close> for a one-character separator.\<close>

fun split_on :: "char \<Rightarrow> string \<Rightarrow> string list" where
  "split_on sep [] = [[]]"
| "split_on sep (c # cs) =
     (if c = sep then [] # split_on sep cs
      else (case split_on sep cs of
              [] \<Rightarrow> [[c]]
            | p # ps \<Rightarrow> (c # p) # ps))"

text \<open>\<open>str(n)\<close> for an integer.\<close>

definition digit_char :: "nat \<Rightarrow> char" where
  "digit_char d = char_of (48 + d)"

function str_nat :: "nat \<Rightarrow> string" where
  "str_nat n = (if n < 10 then [digit_char n] else str_nat (n div 10) @ [digit_char (n mod 10)])"
  by pat_completeness auto
termination
  by (relation "measure id") auto

definition str_int :: "int \<Rightarrow> string" where
  "str_int i = (if i < 0 then CHR ''-'' # str_nat (nat (- i)) else str_nat (nat i))"

section \<open>The route helpers: \<open>parse_bool\<close>\<close>

text \<open>
  \<^verbatim>\<open>
  def parse_bool(val: Optional[str], default: bool) -> bool:
      if val is None:
          return default
      v = str(val).strip().lower()
      return v in {"1", "true", "yes", "y", "on"}
  \<close>
\<close>

definition parse_bool :: "string option \<Rightarrow> bool \<Rightarrow> bool" where
  "parse_bool val default' =
     (case val of
        None \<Rightarrow> default'
      | Some s \<Rightarrow> (let v = lower (strip s) in v \<in> {''1'', ''true'', ''yes'', ''y'', ''on''}))"

section \<open>The file service: \<open>sanitize_filename\<close>\<close>

text \<open>
  \<open>Path(filename).name\<close> on a POSIX path: the path is cut at every \<open>/\<close>, empty
  components and \<open>.\<close> components are dropped, and the name is the last component
  left (the empty string when none is).
\<close>

definition path_name :: "string \<Rightarrow> string" where
  "path_name p =
     (let parts = filter (\<lambda>x. x \<noteq> [] \<and> x \<noteq> ''.'') (split_on CHR ''/'' p)
      in if parts = [] then [] else last parts)"

text \<open>The character class \<open>[a-zA-Z0-9._ -]\<close>.\<close>

definition safe_char :: "char \<Rightarrow> bool" where
  "safe_char c =
     (let n = (of_char c :: nat)
      in (97 \<le> n \<and> n \<le> 122) \<or> (65 \<le> n \<and> n \<le> 90) \<or> (48 \<le> n \<and> n \<le> 57)
         \<or> c = CHR ''.'' \<or> c = CHR ''_'' \<or> c = CHR '' '' \<or> c = CHR ''-'')"

text \<open>
  \<open>re.sub(r"[^a-zA-Z0-9._ -]+", "_", name)\<close>: scanning from the left, a character of
  the class is copied; at a character outside it the pattern matches the longest run
  of such characters (the \<open>+\<close> is greedy), and the whole run is replaced by one
  underscore.
\<close>

function re_sub_unsafe :: "string \<Rightarrow> string" where
  "re_sub_unsafe [] = []"
| "re_sub_unsafe (c # cs) =
     (if safe_char c then c # re_sub_unsafe cs
      else CHR ''_'' # re_sub_unsafe (dropWhile (\<lambda>d. \<not> safe_char d) cs))"
  by pat_completeness auto
termination
  by (relation "measure length") (auto simp: le_imp_less_Suc length_dropWhile_le)

text \<open>
  \<^verbatim>\<open>
  def sanitize_filename(filename: str) -> str:
      name = Path(filename).name
      name = re.sub(r"[^a-zA-Z0-9._ -]+", "_", name).strip()
      return name or "document"
  \<close>
\<close>

definition sanitize_filename :: "string \<Rightarrow> string" where
  "sanitize_filename filename =
     (let name = path_name filename;
          name = strip (re_sub_unsafe name)
      in if name = [] then ''document'' else name)"

text \<open>
  The sanitization as the specification words it: the directory component is
  stripped, every single character outside the class becomes an underscore, and an
  empty result falls back to the default name.
\<close>

definition sanitize_per_character :: "string \<Rightarrow> string" where
  "sanitize_per_character filename =
     (let name = map (\<lambda>c. if safe_char c then c else CHR ''_'') (path_name filename)
      in if name = [] then ''document'' else name)"

section \<open>Exceptions\<close>

text \<open>
  A raised exception is a value: \<open>ValueError\<close> with its message, and any other
  \<open>Exception\<close> (\<open>OSError\<close>, \<open>ZeroDivisionError\<close>, a library's own) with its
  message. \<open>str_exn\<close> is \<open>str(e)\<close>.
\<close>

datatype exn = ValueError string | OtherError string

fun str_exn :: "exn \<Rightarrow> string" where
  "str_exn (ValueError m) = m"
| "str_exn (OtherError m) = m"

datatype http_error = HTTPException nat string

section \<open>Floating point\<close>

text \<open>
  A finite binary64 value is the rational it denotes. An arithmetic operation gives the
  exact result rounded to the nearest value with a 53-bit significand, ties to even
  (the values met here are far from the overflow and subnormal ranges).
  \<open>ilog2 x\<close> is the exponent \<open>e\<close> with \<open>2^e \<le> x < 2^(e+1)\<close> for a positive \<open>x\<close>.
\<close>

definition ilog2 :: "rat \<Rightarrow> int" where
  "ilog2 x =
     (let (a, b) = quotient_of x;
          d = bitlen a - bitlen b
      in if power_int 2 d \<le> x then d else d - 1)"

definition round_half_even :: "rat \<Rightarrow> int" where
  "round_half_even q =
     (let n = \<lfloor>q\<rfloor>; r = q - of_int n
      in if r < 1 / 2 then n else if 1 / 2 < r then n + 1 else if even n then n else n + 1)"

definition round_double :: "rat \<Rightarrow> rat" where
  "round_double x =
     (if x = 0 then 0
      else if x < 0 then - (let u = power_int 2 (ilog2 (- x) - 52)
                            in of_int (round_half_even (- x / u)) * u)
      else (let u = power_int 2 (ilog2 x - 52) in of_int (round_half_even (x / u)) * u))"

text \<open>\<open>a / b\<close> and \<open>a * b\<close> on floats.\<close>

definition fdiv :: "rat \<Rightarrow> rat \<Rightarrow> rat" where
  "fdiv a b = round_double (a / b)"

definition fmul :: "rat \<Rightarrow> rat \<Rightarrow> rat" where
  "fmul a b = round_double (a * b)"

text \<open>\<open>int(x)\<close> on a float: truncation towards zero.\<close>

definition int_of_float :: "rat \<Rightarrow> int" where
  "int_of_float x = (if 0 \<le> x then \<lfloor>x\<rfloor> else \<lceil>x\<rceil>)"

section \<open>Images and the OCR strategy\<close>

text \<open>
  A Pillow image is its size, the pixel data it was made from (opaque), and the
  operations applied to it so far, oldest first. The pixel arithmetic of Pillow is
  not modelled; the sizes and the order of the operations are.
\<close>

datatype img_op = ConvertL | Resize nat nat | Autocontrast | Sharpen

record image =
  width :: nat
  height :: nat
  pixels :: string
  applied :: "img_op list"

definition convert_L :: "image \<Rightarrow> image" where
  "convert_L im = im\<lparr>applied := applied im @ [ConvertL]\<rparr>"

definition autocontrast :: "image \<Rightarrow> image" where
  "autocontrast im = im\<lparr>applied := applied im @ [Autocontrast]\<rparr>"

definition sharpen :: "image \<Rightarrow> image" where
  "sharpen im = im\<lparr>applied := applied im @ [Sharpen]\<rparr>"

text \<open>\<open>image.resize((w, h), Image.LANCZOS)\<close>; Pillow refuses an empty target size.\<close>

definition resize :: "image \<Rightarrow> int \<Rightarrow> int \<Rightarrow> exn + image" where
  "resize im w h =
     (if w \<le> 0 \<or> h \<le> 0 then Inl (ValueError ''height and width must be > 0'')
      else Inr (im\<lparr>width := nat w, height := nat h,
                    applied := applied im @ [Resize (nat w) (nat h)]\<rparr>))"

text \<open>
  A page of a PDF: its embedded text layer (reading it may raise, and may give
  \<open>None\<close>) and its visual content (opaque). Loading the pages is part of opening
  the document (\<open>pdf_open\<close> below).
\<close>

record pdf_page =
  text_layer :: "exn + string option"
  page_content :: string

text \<open>
  The libraries and the machine the service runs on. Every call that can raise
  returns a sum. \<open>fs_fault name\<close> is the error the upload directory raises when the
  file \<open>name\<close> is written or unlinked (\<open>None\<close>: the operation succeeds). For a
  write that raises, \<open>fs_partial name\<close> tells how far it got: \<open>None\<close> when the
  file could not be opened, and \<open>Some n\<close> when it was opened, which truncates it,
  and \<open>n\<close> bytes were written before the error.
\<close>

record env =
  pdf_open :: "bytes \<Rightarrow> exn + pdf_page list"
  pdf_render :: "pdf_page \<Rightarrow> rat \<Rightarrow> exn + image"
  image_open :: "bytes \<Rightarrow> exn + image"
  docx_paragraphs :: "bytes \<Rightarrow> exn + string list"
  image_to_string :: "image \<Rightarrow> exn + string"
  sha256_hexdigest :: "bytes \<Rightarrow> string"
  uuid4 :: "nat \<Rightarrow> string"
  elapsed_ms :: "nat \<Rightarrow> int"
  fs_fault :: "string \<Rightarrow> exn option"
  fs_partial :: "string \<Rightarrow> nat option"

text \<open>
  The state the service changes: the upload directory (file name to content), the
  images handed to Tesseract so far (oldest first), and the number of jobs started.
\<close>

record world =
  files :: "string \<rightharpoonup> bytes"
  ocr_calls :: "image list"
  jobs :: nat

record settings =
  UPLOAD_DIR :: string
  ZERO_RETENTION_DEFAULT :: bool
  MAX_DOCS_PER_BATCH :: int
  MAX_FILE_SIZE_MB :: int

text \<open>
  The preprocessing of \<open>ocr_image\<close>, up to the call of Tesseract:
  \<^verbatim>\<open>
      image = image.convert("L")
      w, h = image.size
      max_side = max(w, h)
      if max_side < 1000:
          scale = 1000 / max_side
          image = image.resize((int(w * scale), int(h * scale)), Image.LANCZOS)
      image = ImageOps.autocontrast(image)
      image = image.filter(ImageFilter.SHARPEN)
  \<close>
\<close>

definition ocr_preprocess :: "image \<Rightarrow> exn + image" where
  "ocr_preprocess image0 =
     (let image1 = convert_L image0;
          w = width image1; h = height image1;
          max_side = max w h
      in case (if max_side < 1000
               then (if max_side = 0 then Inl (OtherError ''division by zero'')
                     else (let scale = fdiv 1000 (of_nat max_side)
                           in resize image1 (int_of_float (fmul (of_nat w) scale))
                                            (int_of_float (fmul (of_nat h) scale))))
               else Inr image1) of
           Inl e \<Rightarrow> Inl e
         | Inr image2 \<Rightarrow> Inr (sharpen (autocontrast image2)))"

text \<open>
  \<^verbatim>\<open>
  def ocr_image(image: Image.Image) -> str:
      ... (the preprocessing above)
      text = pytesseract.image_to_string(image)
      return text.strip()
  \<close>
\<close>

definition ocr_image :: "env \<Rightarrow> world \<Rightarrow> image \<Rightarrow> (exn + string) \<times> world" where
  "ocr_image E w image0 =
     (case ocr_preprocess image0 of
        Inl e \<Rightarrow> (Inl e, w)
      | Inr image1 \<Rightarrow>
          (let w1 = w\<lparr>ocr_calls := ocr_calls w @ [image1]\<rparr>
           in case image_to_string E image1 of
                Inl e \<Rightarrow> (Inl e, w1)
              | Inr t \<Rightarrow> (Inr (strip t), w1)))"

section \<open>The format extractors\<close>

record PageText =
  page_number :: int
  page_text :: string

text \<open>
  One iteration of the loop of \<open>extract_from_pdf\<close>, up to the text of the page:
  \<^verbatim>\<open>
        text = ""
        try:
            textpage = page.get_textpage()
            text = (textpage.get_text_range() or "").strip()
        except Exception:
            text = ""
        if not text:
            scale = 300 / 72.0
            bitmap = page.render(scale=scale)
            pil_image = bitmap.to_pil()
            text = ocr_image(pil_image)
  \<close>
\<close>

definition layer_text :: "pdf_page \<Rightarrow> string" where
  "layer_text page =
     (case text_layer page of
        Inl e \<Rightarrow> []
      | Inr None \<Rightarrow> strip []
      | Inr (Some t) \<Rightarrow> strip t)"

definition pdf_page_text :: "env \<Rightarrow> world \<Rightarrow> pdf_page \<Rightarrow> (exn + string) \<times> world" where
  "pdf_page_text E w page =
     (let t = layer_text page
      in if t = []
         then (let scale = fdiv 300 72
               in case pdf_render E page scale of
                    Inl e \<Rightarrow> (Inl e, w)
                  | Inr pil_image \<Rightarrow> ocr_image E w pil_image)
         else (Inr t, w))"

text \<open>
  The loop \<open>for i in range(len(pdf))\<close>: \<open>i\<close> is the index of the first page of
  \<open>rest\<close>, \<open>acc\<close> the list \<open>pages\<close> so far. An exception leaves the loop.
\<close>

fun pdf_pages ::
  "env \<Rightarrow> world \<Rightarrow> int \<Rightarrow> pdf_page list \<Rightarrow> PageText list \<Rightarrow> (exn + PageText list) \<times> world" where
  "pdf_pages E w i [] acc = (Inr acc, w)"
| "pdf_pages E w i (page # rest) acc =
     (case pdf_page_text E w page of
        (Inl e, w1) \<Rightarrow> (Inl e, w1)
      | (Inr t, w1) \<Rightarrow>
          pdf_pages E w1 (i + 1) rest (acc @ [\<lparr>page_number = i + 1, page_text = t\<rparr>]))"

definition extract_from_pdf ::
  "env \<Rightarrow> world \<Rightarrow> bytes \<Rightarrow> (exn + PageText list) \<times> world" where
  "extract_from_pdf E w file_bytes =
     (case pdf_open E file_bytes of
        Inl e \<Rightarrow> (Inl e, w)
      | Inr pdf \<Rightarrow> pdf_pages E w 0 pdf [])"

text \<open>
  \<^verbatim>\<open>
  def extract_from_image(file_bytes: bytes) -> List[PageText]:
      image = Image.open(io.BytesIO(file_bytes))
      text = ocr_image(image)
      return [PageText(page_number=1, text=text)]
  \<close>
\<close>

definition extract_from_image ::
  "env \<Rightarrow> world \<Rightarrow> bytes \<Rightarrow> (exn + PageText list) \<times> world" where
  "extract_from_image E w file_bytes =
     (case image_open E file_bytes of
        Inl e \<Rightarrow> (Inl e, w)
      | Inr image0 \<Rightarrow>
          (case ocr_image E w image0 of
             (Inl e, w1) \<Rightarrow> (Inl e, w1)
           | (Inr t, w1) \<Rightarrow> (Inr [\<lparr>page_number = 1, page_text = t\<rparr>], w1)))"

text \<open>
  \<^verbatim>\<open>
  def extract_from_docx(file_bytes: bytes) -> List[PageText]:
      doc = Document(io.BytesIO(file_bytes))
      paragraphs = [p.text for p in doc.paragraphs if p.text.strip()]
      text = "\n".join(paragraphs)
      return [PageText(page_number=1, text=text)]
  \<close>
\<close>

definition extract_from_docx :: "env \<Rightarrow> bytes \<Rightarrow> exn + PageText list" where
  "extract_from_docx E file_bytes =
     (case docx_paragraphs E file_bytes of
        Inl e \<Rightarrow> Inl e
      | Inr doc \<Rightarrow>
          (let paragraphs = filter (\<lambda>p. strip p \<noteq> []) doc;
               t = py_join [CHR 0x0A] paragraphs
           in Inr [\<lparr>page_number = 1, page_text = t\<rparr>]))"

section \<open>The retention store\<close>

text \<open>
  \<^verbatim>\<open>
  def save_unique_by_name(filename: str, file_bytes: bytes) -> str:
      safe = sanitize_filename(filename)
      path = BASE_UPLOAD_DIR / safe
      path.write_bytes(file_bytes)
      return str(path)
  \<close>
  An error of \<open>write_bytes\<close> is not caught. \<open>write_bytes\<close> opens the file for
  writing, which empties it, and then writes: a write that fails at the opening
  leaves the directory as it was, and one that fails later leaves the bytes written
  so far in place of the old content. The value returned is \<open>str(path)\<close>.
\<close>

text \<open>
  \<open>str(Path(d) / n)\<close> on a POSIX path, for a name \<open>n\<close> without \<open>/\<close>: the root of
  \<open>d\<close> (two leading slashes are kept, one or more than two give one), then the
  components of \<open>d\<close> and \<open>n\<close> that are neither empty nor \<open>.\<close>, joined by \<open>/\<close>;
  \<open>.\<close> when nothing is left.
\<close>

definition path_parts :: "string \<Rightarrow> string list" where
  "path_parts p = filter (\<lambda>x. x \<noteq> [] \<and> x \<noteq> ''.'') (split_on CHR ''/'' p)"

definition path_root :: "string \<Rightarrow> string" where
  "path_root p =
     (if take 2 p = ''//'' \<and> take 3 p \<noteq> ''///'' then ''//''
      else if take 1 p = ''/'' then ''/''
      else [])"

definition joined_path :: "string \<Rightarrow> string \<Rightarrow> string" where
  "joined_path d n =
     (let ps = path_parts d @ path_parts n
      in if path_root d = [] \<and> ps = [] then ''.''
         else path_root d @ py_join ''/'' ps)"

definition save_unique_by_name ::
  "env \<Rightarrow> settings \<Rightarrow> world \<Rightarrow> string \<Rightarrow> bytes \<Rightarrow> (exn + string) \<times> world" where
  "save_unique_by_name E S w filename file_bytes =
     (let safe = sanitize_filename filename
      in case fs_fault E safe of
           Some e \<Rightarrow>
             (Inl e,
              case fs_partial E safe of
                None \<Rightarrow> w
              | Some n \<Rightarrow> w\<lparr>files := (files w)(safe \<mapsto> take n file_bytes)\<rparr>)
         | None \<Rightarrow> (Inr (joined_path (UPLOAD_DIR S) safe),
                    w\<lparr>files := (files w)(safe \<mapsto> file_bytes)\<rparr>))"

text \<open>
  \<^verbatim>\<open>
  def delete_if_exists(filename: str) -> None:
      safe = sanitize_filename(filename)
      path = BASE_UPLOAD_DIR / safe
      try:
          path.unlink(missing_ok=True)
      except Exception:
          pass
  \<close>
  A missing file is no error (\<open>missing_ok\<close>); an error of \<open>unlink\<close> on a file
  that is there is swallowed, and the file stays.
\<close>

definition delete_if_exists :: "env \<Rightarrow> world \<Rightarrow> string \<Rightarrow> world" where
  "delete_if_exists E w filename =
     (let safe = sanitize_filename filename
      in case files w safe of
           None \<Rightarrow> w
         | Some b \<Rightarrow>
             (case fs_fault E safe of
                Some e \<Rightarrow> w
              | None \<Rightarrow> w\<lparr>files := (files w)(safe := None)\<rparr>))"

section \<open>The extraction orchestrator: \<open>process_file\<close>\<close>

record metadata =
  file_name :: string
  file_type :: string
  num_pages :: int
  processing_time_ms :: int
  engine :: string
  zero_retention :: bool

record OCRResponse =
  job_id :: string
  status :: string
  document_type :: string
  pages :: "PageText list"
  full_text :: string
  meta :: metadata

text \<open>
  \<open>filename.rsplit(".", 1)[-1].lower() if "." in filename else ""\<close>: the text
  after the last dot, lower-cased.
\<close>

definition file_ext :: "string \<Rightarrow> string" where
  "file_ext filename =
     (if CHR ''.'' \<in> set filename
      then lower (rev (takeWhile (\<lambda>c. c \<noteq> CHR ''.'') (rev filename)))
      else [])"

definition image_exts :: "string set" where
  "image_exts = {''jpg'', ''jpeg'', ''png'', ''bmp'', ''tif'', ''tiff''}"

text \<open>
  The dispatch on the extension:
  \<^verbatim>\<open>
      if ext == "pdf":
          pages = extract_from_pdf(file_bytes)
      elif ext in {"jpg", "jpeg", "png", "bmp", "tif", "tiff"}:
          pages = extract_from_image(file_bytes)
      elif ext == "docx":
          pages = extract_from_docx(file_bytes)
      else:
          raise ValueError(f"Unsupported file type: .{ext or 'unknown'}")
  \<close>
\<close>

definition extract_pages ::
  "env \<Rightarrow> world \<Rightarrow> string \<Rightarrow> bytes \<Rightarrow> (exn + PageText list) \<times> world" where
  "extract_pages E w ext file_bytes =
     (if ext = ''pdf'' then extract_from_pdf E w file_bytes
      else if ext \<in> image_exts then extract_from_image E w file_bytes
      else if ext = ''docx'' then (extract_from_docx E file_bytes, w)
      else (Inl (ValueError (''Unsupported file type: .''
                   @ (if ext = [] then ''unknown'' else ext))), w))"

text \<open>
  \<^verbatim>\<open>
  def process_file(file_bytes, filename, document_type, *, zero_retention=None):
      start = time.time()
      job_id = str(uuid.uuid4())
      if zero_retention is None:
          zero_retention = settings.ZERO_RETENTION_DEFAULT
      ext = ...
      (the dispatch)
      full_text = "\n\n".join(p.text for p in pages)
      processing_time_ms = int((time.time() - start) * 1000)
      if not zero_retention:
          file_service.save_unique_by_name(filename, file_bytes)
      else:
          file_service.delete_if_exists(filename)
      return OCRResponse(...)
  \<close>
  The job identifier and the elapsed time are read from the environment, by the
  number of the job.
\<close>

definition process_file ::
  "env \<Rightarrow> settings \<Rightarrow> world \<Rightarrow> bytes \<Rightarrow> string \<Rightarrow> string \<Rightarrow> bool option
     \<Rightarrow> (exn + OCRResponse) \<times> world" where
  "process_file E S w file_bytes filename doc_type zero_ret =
     (let job = uuid4 E (jobs w);
          time_ms = elapsed_ms E (jobs w);
          w0 = w\<lparr>jobs := Suc (jobs w)\<rparr>;
          zr = (case zero_ret of None \<Rightarrow> ZERO_RETENTION_DEFAULT S | Some z \<Rightarrow> z);
          ext = file_ext filename
      in case extract_pages E w0 ext file_bytes of
           (Inl e, w1) \<Rightarrow> (Inl e, w1)
         | (Inr ps, w1) \<Rightarrow>
             (let ft = py_join [CHR 0x0A, CHR 0x0A] (map page_text ps)
              in case (if \<not> zr
                       then (case save_unique_by_name E S w1 filename file_bytes of
                               (Inl e, w2) \<Rightarrow> (Inl e, w2)
                             | (Inr path, w2) \<Rightarrow> (Inr (), w2))
                       else (Inr (), delete_if_exists E w1 filename)) of
                   (Inl e, w2) \<Rightarrow> (Inl e, w2)
                 | (Inr u, w2) \<Rightarrow>
                     (Inr \<lparr>job_id = job, status = ''success'', document_type = doc_type,
                           pages = ps, full_text = ft,
                           meta = \<lparr>file_name = filename, file_type = ext,
                                    num_pages = int (length ps),
                                    processing_time_ms = time_ms,
                                    engine = ''tesseract'',
                                    zero_retention = zr\<rparr>\<rparr>, w2)))"

section \<open>The batch coordinator: \<open>extract_batch\<close>\<close>

record UploadFile =
  upload_filename :: "string option"
  upload_contents :: bytes

record OCRBatchItem =
  item_filename :: string
  file_hash :: string
  skipped_duplicate :: bool
  reason :: "string option"
  response :: "OCRResponse option"
  error :: "string option"

record OCRBatchResponse =
  batch_status :: string
  batch_document_type :: string
  batch_zero_retention :: bool
  max_docs_allowed :: int
  results :: "OCRBatchItem list"

text \<open>The local variables of the loop, and the state of the service.\<close>

record batch_state =
  seen_names :: "string set"
  seen_hashes :: "string set"
  items :: "OCRBatchItem list"
  bworld :: world

definition error_item :: "string \<Rightarrow> string \<Rightarrow> OCRBatchItem" where
  "error_item name msg =
     \<lparr>item_filename = name, file_hash = [], skipped_duplicate = False,
      reason = None, response = None, error = Some msg\<rparr>"

definition skipped_item :: "string \<Rightarrow> string \<Rightarrow> string \<Rightarrow> OCRBatchItem" where
  "skipped_item name h why =
     \<lparr>item_filename = name, file_hash = h, skipped_duplicate = True,
      reason = Some why, response = None, error = None\<rparr>"

definition response_item :: "string \<Rightarrow> string \<Rightarrow> OCRResponse \<Rightarrow> OCRBatchItem" where
  "response_item name h resp =
     \<lparr>item_filename = name, file_hash = h, skipped_duplicate = False,
      reason = None, response = Some resp, error = None\<rparr>"

text \<open>\<open>f.filename or "document"\<close>.\<close>

definition upload_name :: "UploadFile \<Rightarrow> string" where
  "upload_name f =
     (case upload_filename f of
        None \<Rightarrow> ''document''
      | Some n \<Rightarrow> if n = [] then ''document'' else n)"

definition max_bytes :: "settings \<Rightarrow> int" where
  "max_bytes S = MAX_FILE_SIZE_MB S * 1024 * 1024"

definition too_large_message :: "settings \<Rightarrow> string" where
  "too_large_message S = ''File exceeds max size of '' @ str_int (MAX_FILE_SIZE_MB S) @ '' MB''"

text \<open>
  The body of the loop \<open>for f in files\<close> of \<open>extract_batch\<close>: each \<open>continue\<close> is a
  branch that appends its item; both \<open>except\<close> clauses append an error item with
  \<open>str(e)\<close>.
\<close>

definition batch_file ::
  "env \<Rightarrow> settings \<Rightarrow> string \<Rightarrow> bool \<Rightarrow> batch_state \<Rightarrow> UploadFile \<Rightarrow> batch_state" where
  "batch_file E S doc_type zr st f =
     (let name = upload_name f;
          contents = upload_contents f
      in if contents = []
         then st\<lparr>items := items st @ [error_item name ''Empty file'']\<rparr>
         else if int (length contents) > max_bytes S
         then st\<lparr>items := items st @ [error_item name (too_large_message S)]\<rparr>
         else if name \<in> seen_names st
         then st\<lparr>items := items st @ [skipped_item name [] ''duplicate_filename_in_batch'']\<rparr>
         else (let st1 = st\<lparr>seen_names := insert name (seen_names st)\<rparr>;
                   h = sha256_hexdigest E contents
               in if h \<in> seen_hashes st1
                  then st1\<lparr>items := items st1 @ [skipped_item name h ''duplicate_content_in_batch'']\<rparr>
                  else (let st2 = st1\<lparr>seen_hashes := insert h (seen_hashes st1)\<rparr>
                        in case process_file E S (bworld st2) contents name doc_type (Some zr) of
                             (Inr resp, w1) \<Rightarrow>
                               st2\<lparr>items := items st2 @ [response_item name h resp], bworld := w1\<rparr>
                           | (Inl e, w1) \<Rightarrow>
                               st2\<lparr>items := items st2 @ [error_item name (str_exn e)],
                                   bworld := w1\<rparr>)))"

definition batch_init :: "world \<Rightarrow> batch_state" where
  "batch_init w = \<lparr>seen_names = {}, seen_hashes = {}, items = [], bworld = w\<rparr>"

definition too_many_message :: "settings \<Rightarrow> nat \<Rightarrow> string" where
  "too_many_message S n =
     ''Too many files. Received '' @ str_int (int n) @ '' but max allowed is ''
       @ str_int (MAX_DOCS_PER_BATCH S) @ ''.''"

text \<open>
  \<^verbatim>\<open>
  async def extract_batch(files, document_type, zero_retention):
      zr = parse_bool(zero_retention, settings.ZERO_RETENTION_DEFAULT)
      if len(files) > settings.MAX_DOCS_PER_BATCH:
          raise HTTPException(status_code=400, detail=...)
      max_bytes = settings.MAX_FILE_SIZE_MB * 1024 * 1024
      seen_names = set(); seen_hashes = set(); results = []
      for f in files: ...
      return OCRBatchResponse(status="success", document_type=document_type,
          zero_retention=zr, max_docs_allowed=settings.MAX_DOCS_PER_BATCH, results=results)
  \<close>
\<close>

definition extract_batch ::
  "env \<Rightarrow> settings \<Rightarrow> world \<Rightarrow> UploadFile list \<Rightarrow> string \<Rightarrow> string option
     \<Rightarrow> (http_error + OCRBatchResponse) \<times> world" where
  "extract_batch E S w fs doc_type zero_ret =
     (let zr = parse_bool zero_ret (ZERO_RETENTION_DEFAULT S)
      in if int (length fs) > MAX_DOCS_PER_BATCH S
         then (Inl (HTTPException 400 (too_many_message S (length fs))), w)
         else (let st = foldl (batch_file E S doc_type zr) (batch_init w) fs
               in (Inr \<lparr>batch_status = ''success'', batch_document_type = doc_type,
                        batch_zero_retention = zr,
                        max_docs_allowed = MAX_DOCS_PER_BATCH S,
                        results = items st\<rparr>, bworld st)))"

section \<open>Notions the theorems are stated with\<close>

text \<open>
  These definitions are not code of the service; they name what the statements below
  compare the code with.

  The OCR fallback of one PDF page when nothing raises: the page rendered at the
  scale \<open>300 / 72\<close> and preprocessed, and the trimmed output of Tesseract on that
  image.
\<close>

definition page_raster :: "env \<Rightarrow> pdf_page \<Rightarrow> exn + image" where
  "page_raster E page =
     (case pdf_render E page (fdiv 300 72) of
        Inl e \<Rightarrow> Inl e
      | Inr im \<Rightarrow> ocr_preprocess im)"

definition page_ocr_text :: "env \<Rightarrow> pdf_page \<Rightarrow> exn + string" where
  "page_ocr_text E page =
     (case page_raster E page of
        Inl e \<Rightarrow> Inl e
      | Inr im \<Rightarrow> (case image_to_string E im of
                     Inl e \<Rightarrow> Inl e
                   | Inr t \<Rightarrow> Inr (strip t)))"

text \<open>A page with an empty text layer needs the OCR fallback; it must raise nothing.\<close>

definition ocr_succeeds :: "env \<Rightarrow> pdf_page \<Rightarrow> bool" where
  "ocr_succeeds E p = (if layer_text p = [] then \<not> isl (page_ocr_text E p) else True)"

text \<open>The text of a page: the trimmed text layer when it is not empty, else the OCR text.\<close>

definition hybrid_page_text :: "env \<Rightarrow> pdf_page \<Rightarrow> string" where
  "hybrid_page_text E page =
     (if layer_text page \<noteq> [] then layer_text page else projr (page_ocr_text E page))"

text \<open>Pages numbered from \<open>i + 1\<close> on, in order.\<close>

fun number_pages :: "int \<Rightarrow> string list \<Rightarrow> PageText list" where
  "number_pages i [] = []"
| "number_pages i (t # ts) = \<lparr>page_number = i + 1, page_text = t\<rparr> # number_pages (i + 1) ts"

text \<open>
  A file the batch takes up: not empty and not over the size ceiling.
\<close>

definition accepted :: "settings \<Rightarrow> UploadFile \<Rightarrow> bool" where
  "accepted S f =
     (upload_contents f \<noteq> [] \<and> int (length (upload_contents f)) \<le> max_bytes S)"

text \<open>
  The dedup sets (names, hashes) as the batch algorithm registers them, with no
  reference to the extraction: an empty or oversized file registers nothing, a file
  whose name is registered already registers nothing, and every other file registers
  its name and the hash of its content.
\<close>

definition register ::
  "env \<Rightarrow> settings \<Rightarrow> string set \<times> string set \<Rightarrow> UploadFile \<Rightarrow> string set \<times> string set" where
  "register E S NH f =
     (if accepted S f
      then (if upload_name f \<in> fst NH then NH
            else (insert (upload_name f) (fst NH),
                  insert (sha256_hexdigest E (upload_contents f)) (snd NH)))
      else NH)"

definition dedup_sets :: "env \<Rightarrow> settings \<Rightarrow> UploadFile list \<Rightarrow> string set \<times> string set" where
  "dedup_sets E S fs = foldl (register E S) ({}, {}) fs"

text \<open>
  The item of one file by the ordered algorithm of the batch, given the dedup sets
  and the state in which the file is reached.
\<close>

definition batch_item ::
  "env \<Rightarrow> settings \<Rightarrow> string \<Rightarrow> bool \<Rightarrow> string set \<times> string set \<Rightarrow> world \<Rightarrow> UploadFile
     \<Rightarrow> OCRBatchItem" where
  "batch_item E S doc_type zr NH w f =
     (let name = upload_name f;
          contents = upload_contents f;
          h = sha256_hexdigest E contents
      in if contents = [] then error_item name ''Empty file''
         else if int (length contents) > max_bytes S then error_item name (too_large_message S)
         else if name \<in> fst NH then skipped_item name [] ''duplicate_filename_in_batch''
         else if h \<in> snd NH then skipped_item name h ''duplicate_content_in_batch''
         else (case fst (process_file E S w contents name doc_type (Some zr)) of
                 Inr resp \<Rightarrow> response_item name h resp
               | Inl e \<Rightarrow> error_item name (str_exn e)))"

text \<open>The state of the loop of \<open>extract_batch\<close> when it reaches the file of index \<open>k\<close>.\<close>

definition batch_reached ::
  "env \<Rightarrow> settings \<Rightarrow> string \<Rightarrow> bool \<Rightarrow> world \<Rightarrow> UploadFile list \<Rightarrow> nat \<Rightarrow> batch_state" where
  "batch_reached E S doc_type zr w fs k =
     foldl (batch_file E S doc_type zr) (batch_init w) (take k fs)"

section \<open>A small installation\<close>

text \<open>
  Concrete libraries, settings and a state, on which the theorems below are run: a
  two-page PDF whose second page has a blank text layer, 19 by 10 images, a DOCX
  with a blank paragraph, and an upload directory that accepts every operation.
\<close>

definition supported_exts :: "string set" where
  "supported_exts = insert ''pdf'' (insert ''docx'' image_exts)"

definition ex_page1 :: pdf_page where
  "ex_page1 = \<lparr>text_layer = Inr (Some '' Hello ''), page_content = ''p1''\<rparr>"

definition ex_page2 :: pdf_page where
  "ex_page2 = \<lparr>text_layer = Inr (Some ''  ''), page_content = ''p2''\<rparr>"

definition ex_env :: env where
  "ex_env = \<lparr>
     pdf_open = (\<lambda>b. if b = ''%PDF'' then Inr [ex_page1, ex_page2]
                      else Inl (OtherError ''Failed to load document'')),
     pdf_render = (\<lambda>p s. Inr \<lparr>width = 2550, height = 3300, pixels = page_content p,
                               applied = []\<rparr>),
     image_open = (\<lambda>b. if take 3 b = ''PNG''
                        then Inr \<lparr>width = 19, height = 10, pixels = ''img'', applied = []\<rparr>
                        else Inl (OtherError ''cannot identify image file'')),
     docx_paragraphs = (\<lambda>b. if b = ''DOCX'' then Inr [''Title'', ''  '', '' Body'']
                             else Inl (OtherError ''Package not found'')),
     image_to_string = (\<lambda>im. Inr (''scan of '' @ pixels im @ [CHR 0x0A])),
     sha256_hexdigest = (\<lambda>b. ''sha:'' @ b),
     uuid4 = (\<lambda>n. ''job-'' @ str_nat n),
     elapsed_ms = (\<lambda>n. 7),
     fs_fault = (\<lambda>n. None),
     fs_partial = (\<lambda>n. None)\<rparr>"

text \<open>
  The same installation with an upload directory that refuses to open or to unlink
  \<open>scan.png\<close>, and a state in which a blob is stored under that name.
\<close>

definition locked_env :: env where
  "locked_env = ex_env\<lparr>fs_fault :=
     (\<lambda>n. if n = ''scan.png'' then Some (OtherError ''[Errno 13] Permission denied'')
          else None)\<rparr>"

definition ex_settings :: settings where
  "ex_settings = \<lparr>UPLOAD_DIR = ''uploads'', ZERO_RETENTION_DEFAULT = True,
                   MAX_DOCS_PER_BATCH = 20, MAX_FILE_SIZE_MB = 20\<rparr>"

definition ex_world :: world where
  "ex_world = \<lparr>files = Map.empty, ocr_calls = [], jobs = 0\<rparr>"

definition stored_world :: world where
  "stored_world = \<lparr>files = [''scan.png'' \<mapsto> ''old''], ocr_calls = [], jobs = 0\<rparr>"

text \<open>
  A batch of five uploads: a DOCX, a second file of the same name with other bytes,
  the bytes of the first under another name, a file of an unsupported type, and an
  empty file with no name.
\<close>

definition ex_batch :: "UploadFile list" where
  "ex_batch =
     [\<lparr>upload_filename = Some ''a.docx'', upload_contents = ''DOCX''\<rparr>,
      \<lparr>upload_filename = Some ''a.docx'', upload_contents = ''PNG1''\<rparr>,
      \<lparr>upload_filename = Some ''b.docx'', upload_contents = ''DOCX''\<rparr>,
      \<lparr>upload_filename = Some ''c.xyz'', upload_contents = ''zzz''\<rparr>,
      \<lparr>upload_filename = None, upload_contents = []\<rparr>]"

section \<open>Theorems\<close>

subsection \<open>Strings\<close>

lemma strip_Nil: "strip [] = []"
  by (simp add: strip_def)

lemma isspace_not_safe_underscore: "\<not> isspace CHR ''_''"
  by (simp add: isspace_def)

subsection \<open>C6: the retention-override token\<close>

text \<open>
  C6, as the specification states it: an absent token gives the configured default,
  a token of the set gives true, and every other present token gives the configured
  default. The last part fails on the code: with the default true, the token
  \<open>no\<close> gives false.
\<close>

theorem parse_bool_other_token_counterexample:
  "parse_bool (Some ''no'') True = False"
  by code_simp

text \<open>
  C6, amended: an absent token gives the configured default; a present token gives
  true exactly when, trimmed and lower-cased, it is one of 1, true, yes, y, on, and
  false otherwise, whatever the default is.
\<close>

theorem parse_bool_tokens:
  "parse_bool None d = d \<and>
   parse_bool (Some s) d = (lower (strip s) \<in> {''1'', ''true'', ''yes'', ''y'', ''on''})"
  by (simp add: parse_bool_def Let_def)

subsection \<open>C7: filename sanitization\<close>

lemma split_on_not_Nil: "split_on sep s \<noteq> []"
  by (induction s) (auto split: list.splits)

lemma split_on_plain: "sep \<notin> set n \<Longrightarrow> split_on sep n = [n]"
  by (induction n) auto

lemma split_on_parts_plain: "p \<in> set (split_on sep s) \<Longrightarrow> sep \<notin> set p"
  by (induction s arbitrary: p) (auto split: if_splits list.splits)

lemma split_on_last_component:
  "sep \<notin> set n \<Longrightarrow> split_on sep (xs @ sep # n) = split_on sep xs @ [n]"
proof (induction xs)
  case Nil
  then show ?case by (simp add: split_on_plain)
next
  case (Cons c xs)
  obtain p ps where "split_on sep xs = p # ps"
    using split_on_not_Nil [of sep xs] by (cases "split_on sep xs") auto
  with Cons show ?case by simp
qed

lemma path_name_no_slash: "CHR ''/'' \<notin> set (path_name p)"
proof -
  let ?parts = "filter (\<lambda>x. x \<noteq> [] \<and> x \<noteq> ''.'') (split_on CHR ''/'' p)"
  show ?thesis
  proof (cases "?parts = []")
    case True
    then show ?thesis by (simp add: path_name_def)
  next
    case False
    then have "last ?parts \<in> set ?parts" by (rule last_in_set)
    then have "last ?parts \<in> set (split_on CHR ''/'' p)" by simp
    then have "CHR ''/'' \<notin> set (last ?parts)" by (rule split_on_parts_plain)
    with False show ?thesis by (simp add: path_name_def)
  qed
qed

lemma path_name_last_component:
  assumes "CHR ''/'' \<notin> set n" "n \<noteq> []" "n \<noteq> ''.''"
  shows "path_name (d @ CHR ''/'' # n) = n"
  using assms by (simp add: path_name_def split_on_last_component)

lemma re_sub_unsafe_drop_run:
  assumes "\<forall>c\<in>set bad. \<not> safe_char c" "post = [] \<or> safe_char (hd post)"
  shows "dropWhile (\<lambda>d. \<not> safe_char d) (bad @ post) = post"
proof -
  have "dropWhile (\<lambda>d. \<not> safe_char d) (bad @ post) = dropWhile (\<lambda>d. \<not> safe_char d) post"
    using assms(1) by (simp add: dropWhile_append2)
  also have "\<dots> = post"
    using assms(2) by (cases post) auto
  finally show ?thesis .
qed

lemma re_sub_unsafe_run:
  assumes "bad \<noteq> []" "\<forall>c\<in>set bad. \<not> safe_char c" "post = [] \<or> safe_char (hd post)"
  shows "re_sub_unsafe (bad @ post) = CHR ''_'' # re_sub_unsafe post"
proof -
  obtain b bs where bad: "bad = b # bs"
    using assms(1) by (cases bad) auto
  have "dropWhile (\<lambda>d. \<not> safe_char d) (bs @ post) = post"
    using assms(2,3) bad by (intro re_sub_unsafe_drop_run) auto
  then show ?thesis
    using assms(2) bad by simp
qed

lemma re_sub_unsafe_safe_prefix:
  "\<forall>c\<in>set pre. safe_char c \<Longrightarrow> re_sub_unsafe (pre @ zs) = pre @ re_sub_unsafe zs"
  by (induction pre) auto

lemma re_sub_unsafe_all_safe: "\<forall>c\<in>set (re_sub_unsafe s). safe_char c"
proof (induction s rule: re_sub_unsafe.induct)
  case 1
  show ?case by simp
next
  case (2 x xs)
  show ?case
  proof (cases "safe_char x")
    case True
    then have "\<forall>c\<in>set (re_sub_unsafe xs). safe_char c" by (rule 2(1))
    with True show ?thesis by simp
  next
    case False
    then have "\<forall>c\<in>set (re_sub_unsafe (dropWhile (\<lambda>d. \<not> safe_char d) xs)). safe_char c"
      by (rule 2(2))
    moreover have "safe_char CHR ''_''" by (simp add: safe_char_def)
    moreover have "re_sub_unsafe (x # xs) =
        CHR ''_'' # re_sub_unsafe (dropWhile (\<lambda>d. \<not> safe_char d) xs)"
      using False by simp
    ultimately show ?thesis by (metis set_ConsD)
  qed
qed

lemma re_sub_unsafe_class:
  "c \<in> set (re_sub_unsafe s) \<Longrightarrow> safe_char c"
  using re_sub_unsafe_all_safe by blast

lemma strip_subset: "set (strip s) \<subseteq> set s"
proof
  fix x
  assume "x \<in> set (strip s)"
  then have "x \<in> set (dropWhile isspace (rev (dropWhile isspace s)))"
    by (simp add: strip_def)
  then have "x \<in> set (rev (dropWhile isspace s))"
    by (rule set_dropWhileD)
  then have "x \<in> set (dropWhile isspace s)"
    by simp
  then show "x \<in> set s"
    by (rule set_dropWhileD)
qed

lemma sanitize_filename_not_Nil: "sanitize_filename filename \<noteq> []"
  by (simp add: sanitize_filename_def Let_def)

lemma sanitize_filename_class: "c \<in> set (sanitize_filename filename) \<Longrightarrow> safe_char c"
proof -
  assume c: "c \<in> set (sanitize_filename filename)"
  show ?thesis
  proof (cases "strip (re_sub_unsafe (path_name filename)) = []")
    case True
    with c have "c \<in> set ''document''" by (simp add: sanitize_filename_def)
    then show ?thesis by (auto simp: safe_char_def)
  next
    case False
    with c have "c \<in> set (strip (re_sub_unsafe (path_name filename)))"
      by (simp add: sanitize_filename_def)
    then have "c \<in> set (re_sub_unsafe (path_name filename))"
      using strip_subset by blast
    then show ?thesis by (rule re_sub_unsafe_class)
  qed
qed

text \<open>
  C7, as the specification states it: every single character outside the class
  becomes an underscore, so a run of k such characters gives k underscores. On the
  code the two characters \<open>##\<close> of \<open>a##b\<close> give one underscore.
\<close>

theorem sanitize_filename_run_counterexample:
  "sanitize_filename ''a##b'' = ''a_b'' \<and> sanitize_per_character ''a##b'' = ''a__b''"
  by code_simp

text \<open>
  C7, amended: sanitization keeps the last path component only (no \<open>/\<close> is left,
  and a plain last component is the name), replaces every maximal run of characters
  outside the class \<open>[A-Za-z0-9._ -]\<close> by one underscore (a run of k such characters
  gives one underscore) and copies the characters of the class, trims the whitespace
  at both ends, and falls back to \<open>document\<close> when nothing is left; the result is
  never empty and holds characters of the class only.
\<close>

theorem sanitize_filename_collapses_runs:
  "sanitize_filename filename =
     (let s = strip (re_sub_unsafe (path_name filename)) in if s = [] then ''document'' else s) \<and>
   CHR ''/'' \<notin> set (path_name filename) \<and>
   (CHR ''/'' \<notin> set n \<and> n \<noteq> [] \<and> n \<noteq> ''.'' \<longrightarrow> path_name (d @ CHR ''/'' # n) = n) \<and>
   ((\<forall>c\<in>set pre. safe_char c) \<and> bad \<noteq> [] \<and> (\<forall>c\<in>set bad. \<not> safe_char c) \<and>
      (post = [] \<or> safe_char (hd post)) \<longrightarrow>
      re_sub_unsafe (pre @ bad @ post) = pre @ ''_'' @ re_sub_unsafe post) \<and>
   sanitize_filename filename \<noteq> [] \<and>
   (\<forall>c\<in>set (sanitize_filename filename). safe_char c)"
proof (intro conjI impI)
  show "sanitize_filename filename =
     (let s = strip (re_sub_unsafe (path_name filename)) in if s = [] then ''document'' else s)"
    by (simp add: sanitize_filename_def Let_def)
  show "CHR ''/'' \<notin> set (path_name filename)"
    by (rule path_name_no_slash)
  show "path_name (d @ CHR ''/'' # n) = n"
    if "CHR ''/'' \<notin> set n \<and> n \<noteq> [] \<and> n \<noteq> ''.''"
    using that by (intro path_name_last_component) auto
  show "re_sub_unsafe (pre @ bad @ post) = pre @ ''_'' @ re_sub_unsafe post"
    if h: "(\<forall>c\<in>set pre. safe_char c) \<and> bad \<noteq> [] \<and> (\<forall>c\<in>set bad. \<not> safe_char c) \<and>
      (post = [] \<or> safe_char (hd post))"
  proof -
    have "re_sub_unsafe (pre @ bad @ post) = pre @ re_sub_unsafe (bad @ post)"
      using h by (intro re_sub_unsafe_safe_prefix) blast
    also have "re_sub_unsafe (bad @ post) = CHR ''_'' # re_sub_unsafe post"
      using h by (intro re_sub_unsafe_run) blast+
    finally show ?thesis by simp
  qed
  show "sanitize_filename filename \<noteq> []"
    by (rule sanitize_filename_not_Nil)
  show "\<forall>c\<in>set (sanitize_filename filename). safe_char c"
    using sanitize_filename_class by blast
qed

theorem sanitize_filename_collapses_runs_witness:
  "sanitize_filename ''../up/re port#?!.pdf '' = ''re port_.pdf'' \<and>
   path_name (''../up'' @ CHR ''/'' # ''re port#?!.pdf '') = ''re port#?!.pdf '' \<and>
   re_sub_unsafe (''re port'' @ ''#?!'' @ ''.pdf '') = ''re port'' @ ''_'' @ re_sub_unsafe ''.pdf ''"
proof -
  have n: "CHR ''/'' \<notin> set ''re port#?!.pdf '' \<and> ''re port#?!.pdf '' \<noteq> [] \<and> ''re port#?!.pdf '' \<noteq> ''.''"
    by simp
  have r: "(\<forall>c\<in>set ''re port''. safe_char c) \<and> ''#?!'' \<noteq> [] \<and> (\<forall>c\<in>set ''#?!''. \<not> safe_char c) \<and>
      (''.pdf '' = [] \<or> safe_char (hd ''.pdf ''))"
    by code_simp
  have v: "sanitize_filename ''../up/re port#?!.pdf '' = ''re port_.pdf''"
    by code_simp
  note t = sanitize_filename_collapses_runs
    [of "''../up/re port#?!.pdf ''" "''re port#?!.pdf ''" "''../up''" "''re port''" "''#?!''" "''.pdf ''"]
  from t n have "path_name (''../up'' @ CHR ''/'' # ''re port#?!.pdf '') = ''re port#?!.pdf ''"
    by blast
  moreover from t r have
    "re_sub_unsafe (''re port'' @ ''#?!'' @ ''.pdf '') = ''re port'' @ ''_'' @ re_sub_unsafe ''.pdf ''"
    by blast
  ultimately show ?thesis using v by blast
qed

subsection \<open>Results and the state\<close>

lemma result_collapse: "\<not> isl (fst p) \<Longrightarrow> p = (Inr (projr (fst p)), snd p)"
  by (cases p; cases "fst p") auto

lemma ocr_image_files: "files (snd (ocr_image E w im)) = files w"
  by (simp add: ocr_image_def Let_def split: sum.splits)

lemma ocr_image_jobs: "jobs (snd (ocr_image E w im)) = jobs w"
  by (simp add: ocr_image_def Let_def split: sum.splits)

lemma pdf_page_text_files: "files (snd (pdf_page_text E w page)) = files w"
  by (simp add: pdf_page_text_def Let_def ocr_image_files split: sum.splits)

lemma pdf_pages_files: "files (snd (pdf_pages E w i rest acc)) = files w"
proof (induction rest arbitrary: w i acc)
  case Nil
  show ?case by simp
next
  case (Cons page rest)
  obtain res w1 where p: "pdf_page_text E w page = (res, w1)"
    by (cases "pdf_page_text E w page")
  have w1: "files w1 = files w"
    using pdf_page_text_files [of E w page] p by simp
  show ?case
  proof (cases res)
    case (Inl e)
    with p w1 show ?thesis by simp
  next
    case (Inr t)
    with p w1 Cons.IH [of w1] show ?thesis by simp
  qed
qed

lemma extract_pages_files: "files (snd (extract_pages E w ext b)) = files w"
proof -
  have "files (snd (extract_from_pdf E w b)) = files w"
    by (simp add: extract_from_pdf_def pdf_pages_files split: sum.splits)
  moreover have "files (snd (extract_from_image E w b)) = files w"
  proof (cases "image_open E b")
    case (Inl e)
    then show ?thesis by (simp add: extract_from_image_def)
  next
    case (Inr im)
    obtain res w1 where o: "ocr_image E w im = (res, w1)"
      by (cases "ocr_image E w im")
    then have "files w1 = files w"
      using ocr_image_files [of E w im] by simp
    with Inr o show ?thesis
      by (cases res) (simp_all add: extract_from_image_def)
  qed
  ultimately show ?thesis
    by (simp add: extract_pages_def)
qed

text \<open>What a successful run of \<open>process_file\<close> went through.\<close>

lemma process_file_Inr:
  assumes "process_file E S w b fn dt zr = (Inr r, w')"
  shows "\<exists>ps w1.
      extract_pages E (w\<lparr>jobs := Suc (jobs w)\<rparr>) (file_ext fn) b = (Inr ps, w1) \<and>
      pages r = ps \<and>
      full_text r = py_join [CHR 0x0A, CHR 0x0A] (map page_text ps) \<and>
      (if \<not> (case zr of None \<Rightarrow> ZERO_RETENTION_DEFAULT S | Some z \<Rightarrow> z)
       then \<exists>path. save_unique_by_name E S w1 fn b = (Inr path, w')
       else w' = delete_if_exists E w1 fn)"
proof -
  obtain res w1 where x: "extract_pages E (w\<lparr>jobs := Suc (jobs w)\<rparr>) (file_ext fn) b = (res, w1)"
    by (cases "extract_pages E (w\<lparr>jobs := Suc (jobs w)\<rparr>) (file_ext fn) b")
  show ?thesis
  proof (cases res)
    case (Inl e)
    with x assms show ?thesis by (simp add: process_file_def Let_def)
  next
    case (Inr ps)
    show ?thesis
    proof (cases "case zr of None \<Rightarrow> ZERO_RETENTION_DEFAULT S | Some z \<Rightarrow> z")
      case True
      with x Inr assms show ?thesis
        by (auto simp: process_file_def Let_def)
    next
      case False
      obtain sres w2 where sv: "save_unique_by_name E S w1 fn b = (sres, w2)"
        by (cases "save_unique_by_name E S w1 fn b")
      show ?thesis
      proof (cases sres)
        case (Inl e)
        with x Inr False sv assms show ?thesis by (simp add: process_file_def Let_def)
      next
        case (Inr path)
        with x \<open>res = Inr ps\<close> False sv assms show ?thesis
          by (auto simp: process_file_def Let_def)
      qed
    qed
  qed
qed

subsection \<open>C2: the full text is the join of the pages\<close>

text \<open>
  C2: whenever \<open>process_file\<close> returns a response, for whatever format, the
  \<open>full_text\<close> of the response is the \<open>text\<close> fields of its \<open>pages\<close>, in page
  order, joined with two newlines.
\<close>

theorem process_file_full_text:
  assumes "process_file E S w b fn dt zr = (Inr r, w')"
  shows "full_text r = py_join [CHR 0x0A, CHR 0x0A] (map page_text (pages r))"
  using process_file_Inr [OF assms] by auto

theorem process_file_full_text_witness:
  "\<not> isl (fst (process_file ex_env ex_settings ex_world ''%PDF'' ''a.PDF'' ''generic'' None)) \<and>
   full_text (projr (fst (process_file ex_env ex_settings ex_world ''%PDF'' ''a.PDF'' ''generic'' None)))
     = py_join [CHR 0x0A, CHR 0x0A] (map page_text (pages (projr (fst
         (process_file ex_env ex_settings ex_world ''%PDF'' ''a.PDF'' ''generic'' None))))) \<and>
   full_text (projr (fst (process_file ex_env ex_settings ex_world ''%PDF'' ''a.PDF'' ''generic'' None)))
     = ''Hello'' @ [CHR 0x0A, CHR 0x0A] @ ''scan of p2''"
proof -
  let ?p = "process_file ex_env ex_settings ex_world ''%PDF'' ''a.PDF'' ''generic'' None"
  have ok: "\<not> isl (fst ?p)"
    by code_simp
  have v: "full_text (projr (fst ?p)) = ''Hello'' @ [CHR 0x0A, CHR 0x0A] @ ''scan of p2''"
    by code_simp
  from process_file_full_text [OF result_collapse [OF ok]] ok v show ?thesis
    by blast
qed

subsection \<open>C8: unsupported formats\<close>

lemma file_ext_no_dot: "CHR ''.'' \<notin> set fn \<Longrightarrow> file_ext fn = []"
  by (simp add: file_ext_def)

lemma file_ext_after_last_dot:
  "CHR ''.'' \<notin> set x \<Longrightarrow> file_ext (stem @ CHR ''.'' # x) = lower x"
proof -
  assume x: "CHR ''.'' \<notin> set x"
  have "takeWhile (\<lambda>c. c \<noteq> CHR ''.'') (rev x @ CHR ''.'' # rev stem) = rev x"
    using x by (subst takeWhile_append2) auto
  then show ?thesis by (simp add: file_ext_def)
qed

lemma Nil_unsupported: "[] \<notin> supported_exts"
  by (simp add: supported_exts_def image_exts_def)

lemma extract_pages_unsupported:
  "ext \<notin> supported_exts \<Longrightarrow>
   extract_pages E w ext b =
     (Inl (ValueError (''Unsupported file type: .'' @ (if ext = [] then ''unknown'' else ext))), w)"
  by (simp add: extract_pages_def supported_exts_def)

text \<open>
  C8: when the extension of the file name (the text after the last dot, lower-cased;
  empty when the name has no dot) is none of pdf, jpg, jpeg, png, bmp, tif, tiff,
  docx, \<open>process_file\<close> raises a \<open>ValueError\<close> whose message ends with the
  extension, or with \<open>unknown\<close> when there is none, and the state it leaves differs
  from the one it found in the job counter only: the upload directory is neither
  written nor deleted from, and no image is handed to Tesseract.
\<close>

theorem process_file_unsupported:
  "(file_ext fn \<notin> supported_exts \<longrightarrow>
      process_file E S w b fn dt zr =
        (Inl (ValueError (''Unsupported file type: .''
               @ (if file_ext fn = [] then ''unknown'' else file_ext fn))),
         w\<lparr>jobs := Suc (jobs w)\<rparr>)) \<and>
   (CHR ''.'' \<notin> set fn \<longrightarrow>
      process_file E S w b fn dt zr =
        (Inl (ValueError ''Unsupported file type: .unknown''), w\<lparr>jobs := Suc (jobs w)\<rparr>)) \<and>
   (CHR ''.'' \<notin> set x \<longrightarrow> file_ext (stem @ CHR ''.'' # x) = lower x)"
proof (intro conjI impI)
  show u: "process_file E S w b fn dt zr =
        (Inl (ValueError (''Unsupported file type: .''
               @ (if file_ext fn = [] then ''unknown'' else file_ext fn))),
         w\<lparr>jobs := Suc (jobs w)\<rparr>)"
    if "file_ext fn \<notin> supported_exts" for fn
    using that by (simp add: process_file_def Let_def extract_pages_unsupported)
  show "process_file E S w b fn dt zr =
        (Inl (ValueError ''Unsupported file type: .unknown''), w\<lparr>jobs := Suc (jobs w)\<rparr>)"
    if "CHR ''.'' \<notin> set fn"
    using that u [of fn] by (simp add: file_ext_no_dot Nil_unsupported)
  show "file_ext (stem @ CHR ''.'' # x) = lower x" if "CHR ''.'' \<notin> set x"
    using that by (rule file_ext_after_last_dot)
qed

theorem process_file_unsupported_witness:
  "file_ext ''notes.XYZ'' \<notin> supported_exts \<and> CHR ''.'' \<notin> set ''README'' \<and>
   process_file ex_env ex_settings ex_world ''abc'' ''notes.XYZ'' ''generic'' (Some False) =
     (Inl (ValueError ''Unsupported file type: .xyz''), ex_world\<lparr>jobs := Suc (jobs ex_world)\<rparr>) \<and>
   process_file ex_env ex_settings ex_world ''abc'' ''README'' ''generic'' (Some False) =
     (Inl (ValueError ''Unsupported file type: .unknown''), ex_world\<lparr>jobs := Suc (jobs ex_world)\<rparr>) \<and>
   file_ext (''notes'' @ CHR ''.'' # ''XYZ'') = lower ''XYZ''"
proof -
  have a: "file_ext ''notes.XYZ'' \<notin> supported_exts"
    by code_simp
  have e: "file_ext ''notes.XYZ'' = ''xyz''"
    by code_simp
  have c: "CHR ''.'' \<notin> set ''README''" "CHR ''.'' \<notin> set ''XYZ''"
    by simp_all
  note t1 = process_file_unsupported
    [of "''notes.XYZ''" ex_env ex_settings ex_world "''abc''" "''generic''" "Some False" "''XYZ''" "''notes''"]
  note t2 = process_file_unsupported
    [of "''README''" ex_env ex_settings ex_world "''abc''" "''generic''" "Some False" "''XYZ''" "''notes''"]
  from t1 a e have
    "process_file ex_env ex_settings ex_world ''abc'' ''notes.XYZ'' ''generic'' (Some False) =
     (Inl (ValueError ''Unsupported file type: .xyz''), ex_world\<lparr>jobs := Suc (jobs ex_world)\<rparr>)"
    by simp
  moreover from t2 c have
    "process_file ex_env ex_settings ex_world ''abc'' ''README'' ''generic'' (Some False) =
     (Inl (ValueError ''Unsupported file type: .unknown''), ex_world\<lparr>jobs := Suc (jobs ex_world)\<rparr>)"
    by blast
  moreover from t1 c have "file_ext (''notes'' @ CHR ''.'' # ''XYZ'') = lower ''XYZ''"
    by blast
  ultimately show ?thesis using a c by blast
qed

subsection \<open>C10: images and DOCX files give one page\<close>

text \<open>
  C10: when \<open>process_file\<close> returns a response for a file with an image extension,
  its pages are one page, numbered 1, whose text is what \<open>ocr_image\<close> returns for
  the decoded image; for a \<open>docx\<close> file, they are one page, numbered 1, whose text
  is the paragraphs of the document in order, without those that are empty once
  trimmed, joined with one newline. In both cases the run does return a response
  whenever the libraries and the upload directory raise nothing.
\<close>

theorem image_and_docx_single_page:
  "(process_file E S w b fn dt zr = (Inr r, w') \<and> file_ext fn \<in> image_exts \<longrightarrow>
      (\<exists>im t. image_open E b = Inr im \<and>
              fst (ocr_image E (w\<lparr>jobs := Suc (jobs w)\<rparr>) im) = Inr t \<and>
              pages r = [\<lparr>page_number = 1, page_text = t\<rparr>])) \<and>
   (process_file E S w b fn dt zr = (Inr r, w') \<and> file_ext fn = ''docx'' \<longrightarrow>
      (\<exists>paras. docx_paragraphs E b = Inr paras \<and>
              pages r = [\<lparr>page_number = 1,
                          page_text = py_join [CHR 0x0A] (filter (\<lambda>p. strip p \<noteq> []) paras)\<rparr>])) \<and>
   (file_ext fn \<in> image_exts \<and> image_open E b = Inr im \<and>
      fst (ocr_image E w0 im) = Inr t \<longrightarrow>
      fst (extract_pages E w0 (file_ext fn) b) = Inr [\<lparr>page_number = 1, page_text = t\<rparr>]) \<and>
   (file_ext fn = ''docx'' \<and> docx_paragraphs E b = Inr paras \<longrightarrow>
      extract_pages E w0 (file_ext fn) b =
        (Inr [\<lparr>page_number = 1,
               page_text = py_join [CHR 0x0A] (filter (\<lambda>p. strip p \<noteq> []) paras)\<rparr>], w0))"
proof (intro conjI impI)
  assume h: "process_file E S w b fn dt zr = (Inr r, w') \<and> file_ext fn \<in> image_exts"
  then obtain w1 where x: "extract_pages E (w\<lparr>jobs := Suc (jobs w)\<rparr>) (file_ext fn) b = (Inr (pages r), w1)"
    using process_file_Inr [of E S w b fn dt zr r w'] by auto
  from h have ne: "file_ext fn \<noteq> ''pdf''"
    by (auto simp: image_exts_def)
  with h x have i: "extract_from_image E (w\<lparr>jobs := Suc (jobs w)\<rparr>) b = (Inr (pages r), w1)"
    by (simp add: extract_pages_def)
  show "\<exists>im t. image_open E b = Inr im \<and>
              fst (ocr_image E (w\<lparr>jobs := Suc (jobs w)\<rparr>) im) = Inr t \<and>
              pages r = [\<lparr>page_number = 1, page_text = t\<rparr>]"
  proof (cases "image_open E b")
    case (Inl e)
    with i show ?thesis by (simp add: extract_from_image_def)
  next
    case (Inr im)
    obtain res w2 where o: "ocr_image E (w\<lparr>jobs := Suc (jobs w)\<rparr>) im = (res, w2)"
      by (cases "ocr_image E (w\<lparr>jobs := Suc (jobs w)\<rparr>) im")
    with Inr i show ?thesis
      by (cases res) (auto simp: extract_from_image_def)
  qed
next
  assume h: "process_file E S w b fn dt zr = (Inr r, w') \<and> file_ext fn = ''docx''"
  then obtain w1 where x: "extract_pages E (w\<lparr>jobs := Suc (jobs w)\<rparr>) (file_ext fn) b = (Inr (pages r), w1)"
    using process_file_Inr [of E S w b fn dt zr r w'] by auto
  with h have d: "extract_from_docx E b = Inr (pages r)"
    by (simp add: extract_pages_def image_exts_def)
  show "\<exists>paras. docx_paragraphs E b = Inr paras \<and>
              pages r = [\<lparr>page_number = 1,
                          page_text = py_join [CHR 0x0A] (filter (\<lambda>p. strip p \<noteq> []) paras)\<rparr>]"
    using d by (cases "docx_paragraphs E b") (auto simp: extract_from_docx_def Let_def)
next
  assume h: "file_ext fn \<in> image_exts \<and> image_open E b = Inr im \<and> fst (ocr_image E w0 im) = Inr t"
  then have ne: "file_ext fn \<noteq> ''pdf''"
    by (auto simp: image_exts_def)
  obtain res w2 where o: "ocr_image E w0 im = (res, w2)"
    by (cases "ocr_image E w0 im")
  with h ne show "fst (extract_pages E w0 (file_ext fn) b) = Inr [\<lparr>page_number = 1, page_text = t\<rparr>]"
    by (simp add: extract_pages_def extract_from_image_def)
next
  assume h: "file_ext fn = ''docx'' \<and> docx_paragraphs E b = Inr paras"
  then show "extract_pages E w0 (file_ext fn) b =
        (Inr [\<lparr>page_number = 1,
               page_text = py_join [CHR 0x0A] (filter (\<lambda>p. strip p \<noteq> []) paras)\<rparr>], w0)"
    by (simp add: extract_pages_def image_exts_def extract_from_docx_def Let_def)
qed

theorem image_and_docx_single_page_witness:
  "\<not> isl (fst (process_file ex_env ex_settings ex_world ''PNG1'' ''scan.PNG'' ''generic'' None)) \<and>
   file_ext ''scan.PNG'' \<in> image_exts \<and>
   (\<exists>im t. image_open ex_env ''PNG1'' = Inr im \<and>
       fst (ocr_image ex_env (ex_world\<lparr>jobs := Suc (jobs ex_world)\<rparr>) im) = Inr t \<and>
       pages (projr (fst (process_file ex_env ex_settings ex_world ''PNG1'' ''scan.PNG'' ''generic'' None)))
         = [\<lparr>page_number = 1, page_text = t\<rparr>]) \<and>
   pages (projr (fst (process_file ex_env ex_settings ex_world ''PNG1'' ''scan.PNG'' ''generic'' None)))
     = [\<lparr>page_number = 1, page_text = ''scan of img''\<rparr>] \<and>
   \<not> isl (fst (process_file ex_env ex_settings ex_world ''DOCX'' ''a.docx'' ''generic'' None)) \<and>
   file_ext ''a.docx'' = ''docx'' \<and>
   (\<exists>paras. docx_paragraphs ex_env ''DOCX'' = Inr paras \<and>
       pages (projr (fst (process_file ex_env ex_settings ex_world ''DOCX'' ''a.docx'' ''generic'' None)))
         = [\<lparr>page_number = 1,
             page_text = py_join [CHR 0x0A] (filter (\<lambda>p. strip p \<noteq> []) paras)\<rparr>]) \<and>
   pages (projr (fst (process_file ex_env ex_settings ex_world ''DOCX'' ''a.docx'' ''generic'' None)))
     = [\<lparr>page_number = 1, page_text = ''Title'' @ [CHR 0x0A] @ '' Body''\<rparr>]"
proof -
  let ?pi = "process_file ex_env ex_settings ex_world ''PNG1'' ''scan.PNG'' ''generic'' None"
  let ?pd = "process_file ex_env ex_settings ex_world ''DOCX'' ''a.docx'' ''generic'' None"
  have oki: "\<not> isl (fst ?pi)" by code_simp
  have okd: "\<not> isl (fst ?pd)" by code_simp
  have exi: "file_ext ''scan.PNG'' \<in> image_exts" by code_simp
  have exd: "file_ext ''a.docx'' = ''docx''" by code_simp
  have vi: "pages (projr (fst ?pi)) = [\<lparr>page_number = 1, page_text = ''scan of img''\<rparr>]"
    by code_simp
  have vd: "pages (projr (fst ?pd))
     = [\<lparr>page_number = 1, page_text = ''Title'' @ [CHR 0x0A] @ '' Body''\<rparr>]"
    by code_simp
  note ti = image_and_docx_single_page
    [where E = ex_env and S = ex_settings and w = ex_world and b = "''PNG1''"
       and fn = "''scan.PNG''" and dt = "''generic''" and zr = None
       and r = "projr (fst ?pi)" and w' = "snd ?pi"]
  note td = image_and_docx_single_page
    [where E = ex_env and S = ex_settings and w = ex_world and b = "''DOCX''"
       and fn = "''a.docx''" and dt = "''generic''" and zr = None
       and r = "projr (fst ?pd)" and w' = "snd ?pd"]
  from ti result_collapse [OF oki] exi have
    "\<exists>im t. image_open ex_env ''PNG1'' = Inr im \<and>
       fst (ocr_image ex_env (ex_world\<lparr>jobs := Suc (jobs ex_world)\<rparr>) im) = Inr t \<and>
       pages (projr (fst ?pi)) = [\<lparr>page_number = 1, page_text = t\<rparr>]"
    by blast
  moreover from td result_collapse [OF okd] exd have
    "\<exists>paras. docx_paragraphs ex_env ''DOCX'' = Inr paras \<and>
       pages (projr (fst ?pd))
         = [\<lparr>page_number = 1,
             page_text = py_join [CHR 0x0A] (filter (\<lambda>p. strip p \<noteq> []) paras)\<rparr>]"
    by blast
  ultimately show ?thesis using oki okd exi exd vi vd by blast
qed

subsection \<open>C5: one blob per sanitized name\<close>

lemma save_unique_by_name_files:
  "save_unique_by_name E S w fn b = (Inr path, w') \<Longrightarrow>
   files w' = (files w)(sanitize_filename fn \<mapsto> b)"
  by (auto simp: save_unique_by_name_def Let_def split: option.splits)

lemma delete_if_exists_files:
  "fs_fault E (sanitize_filename fn) = None \<Longrightarrow>
   files (delete_if_exists E w fn) = (files w)(sanitize_filename fn := None)"
  by (auto simp: delete_if_exists_def Let_def split: option.splits)

lemma delete_if_exists_missing:
  "files w (sanitize_filename fn) = None \<Longrightarrow> delete_if_exists E w fn = w"
  by (simp add: delete_if_exists_def Let_def)

lemma process_file_stores:
  assumes "process_file E S w b fn dt (Some False) = (Inr r, w')"
  shows "files w' = (files w)(sanitize_filename fn \<mapsto> b)"
proof -
  from process_file_Inr [OF assms] obtain ps w1 path where
    x: "extract_pages E (w\<lparr>jobs := Suc (jobs w)\<rparr>) (file_ext fn) b = (Inr ps, w1)" and
    sv: "save_unique_by_name E S w1 fn b = (Inr path, w')"
    by auto
  have "files w1 = files w"
    using extract_pages_files [of E "w\<lparr>jobs := Suc (jobs w)\<rparr>" "file_ext fn" b] x by simp
  with save_unique_by_name_files [OF sv] show ?thesis by simp
qed

lemma process_file_deletes:
  assumes "process_file E S w b fn dt (Some True) = (Inr r, w')"
    and "fs_fault E (sanitize_filename fn) = None"
  shows "files w' = (files w)(sanitize_filename fn := None)"
proof -
  from process_file_Inr [OF assms(1)] obtain ps w1 where
    x: "extract_pages E (w\<lparr>jobs := Suc (jobs w)\<rparr>) (file_ext fn) b = (Inr ps, w1)" and
    d: "w' = delete_if_exists E w1 fn"
    by auto
  have "files w1 = files w"
    using extract_pages_files [of E "w\<lparr>jobs := Suc (jobs w)\<rparr>" "file_ext fn" b] x by simp
  with d delete_if_exists_files [OF assms(2), of w1] show ?thesis by simp
qed

lemma delete_if_exists_fault:
  "fs_fault E (sanitize_filename fn) \<noteq> None \<Longrightarrow> delete_if_exists E w fn = w"
  by (auto simp: delete_if_exists_def Let_def split: option.splits)

lemma process_file_delete_fault:
  assumes "process_file E S w b fn dt (Some True) = (Inr r, w')"
    and "fs_fault E (sanitize_filename fn) \<noteq> None"
  shows "files w' = files w"
proof -
  from process_file_Inr [OF assms(1)] obtain ps w1 where
    x: "extract_pages E (w\<lparr>jobs := Suc (jobs w)\<rparr>) (file_ext fn) b = (Inr ps, w1)" and
    d: "w' = delete_if_exists E w1 fn"
    by auto
  have "files w1 = files w"
    using extract_pages_files [of E "w\<lparr>jobs := Suc (jobs w)\<rparr>" "file_ext fn" b] x by simp
  with d delete_if_exists_fault [OF assms(2), of w1] show ?thesis by simp
qed

text \<open>
  C5, as the specification states it: a zero-retention run leaves no blob under the
  sanitized name and deletes a blob that was there. On the code, an error of the
  unlink is swallowed by \<open>delete_if_exists\<close>: with a directory that refuses to
  unlink \<open>scan.png\<close> and a blob stored under that name, the zero-retention run
  returns its response and the blob is still there.
\<close>

theorem zero_retention_blob_stays_counterexample:
  "files stored_world (sanitize_filename ''scan.png'') = Some ''old'' \<and>
   \<not> isl (fst (process_file locked_env ex_settings stored_world ''PNG1'' ''scan.png'' ''generic'' (Some True))) \<and>
   files (snd (process_file locked_env ex_settings stored_world ''PNG1'' ''scan.png'' ''generic'' (Some True)))
     (sanitize_filename ''scan.png'') = Some ''old''"
  by code_simp

text \<open>
  C5, amended. The upload directory holds at most one blob under a sanitized name.
  Two successful runs with retention (flag false) under file names with the same
  sanitized name leave, under that name, the bytes of the second run, and leave every
  other name as it was. A successful zero-retention run (flag true) whose unlink
  raises no error leaves no blob under the sanitized name, whether or not one was
  there, and leaves every other name as it was; when the unlink raises, the error is
  swallowed and the directory stays as it was, a blob under the name included.
  Deleting when no blob is there changes nothing.
\<close>

theorem retention_store_one_blob_per_name:
  "(process_file E S w ba fna dta (Some False) = (Inr ra, wa) \<and>
    process_file E S wa bb fnb dtb (Some False) = (Inr rb, wb) \<and>
    sanitize_filename fna = sanitize_filename fnb \<longrightarrow>
      files wb (sanitize_filename fnb) = Some bb \<and>
      (\<forall>m. m \<noteq> sanitize_filename fnb \<longrightarrow> files wb m = files w m)) \<and>
   (process_file E S w b fn dt (Some True) = (Inr r, w') \<and>
    fs_fault E (sanitize_filename fn) = None \<longrightarrow>
      files w' (sanitize_filename fn) = None \<and>
      (\<forall>m. m \<noteq> sanitize_filename fn \<longrightarrow> files w' m = files w m)) \<and>
   (process_file E S w b fn dt (Some True) = (Inr r, w') \<and>
    fs_fault E (sanitize_filename fn) \<noteq> None \<longrightarrow>
      files w' = files w) \<and>
   (files w (sanitize_filename fn) = None \<longrightarrow> delete_if_exists E w fn = w)"
proof (intro conjI impI)
  assume h: "process_file E S w ba fna dta (Some False) = (Inr ra, wa) \<and>
    process_file E S wa bb fnb dtb (Some False) = (Inr rb, wb) \<and>
    sanitize_filename fna = sanitize_filename fnb"
  then have f1: "files wa = (files w)(sanitize_filename fna \<mapsto> ba)"
    and f2: "files wb = (files wa)(sanitize_filename fnb \<mapsto> bb)"
    by (auto dest: process_file_stores)
  from f2 show "files wb (sanitize_filename fnb) = Some bb"
    by simp
  from f1 f2 h show "\<forall>m. m \<noteq> sanitize_filename fnb \<longrightarrow> files wb m = files w m"
    by simp
next
  assume h: "process_file E S w b fn dt (Some True) = (Inr r, w') \<and>
    fs_fault E (sanitize_filename fn) = None"
  then have f: "files w' = (files w)(sanitize_filename fn := None)"
    by (auto dest: process_file_deletes)
  from f show "files w' (sanitize_filename fn) = None"
    by simp
  from f show "\<forall>m. m \<noteq> sanitize_filename fn \<longrightarrow> files w' m = files w m"
    by simp
next
  assume "process_file E S w b fn dt (Some True) = (Inr r, w') \<and>
    fs_fault E (sanitize_filename fn) \<noteq> None"
  then show "files w' = files w"
    using process_file_delete_fault [of E S w b fn dt r w'] by blast
next
  assume "files w (sanitize_filename fn) = None"
  then show "delete_if_exists E w fn = w"
    by (rule delete_if_exists_missing)
qed

theorem retention_store_one_blob_per_name_witness:
  "\<not> isl (fst (process_file ex_env ex_settings ex_world ''PNG1'' ''up/scan.png'' ''generic'' (Some False))) \<and>
   \<not> isl (fst (process_file ex_env ex_settings
       (snd (process_file ex_env ex_settings ex_world ''PNG1'' ''up/scan.png'' ''generic'' (Some False)))
       ''PNG2'' ''scan.png'' ''generic'' (Some False))) \<and>
   sanitize_filename ''up/scan.png'' = sanitize_filename ''scan.png'' \<and>
   sanitize_filename ''scan.png'' = ''scan.png'' \<and>
   files (snd (process_file ex_env ex_settings
       (snd (process_file ex_env ex_settings ex_world ''PNG1'' ''up/scan.png'' ''generic'' (Some False)))
       ''PNG2'' ''scan.png'' ''generic'' (Some False))) (sanitize_filename ''scan.png'') = Some ''PNG2'' \<and>
   \<not> isl (fst (process_file ex_env ex_settings
       (snd (process_file ex_env ex_settings
          (snd (process_file ex_env ex_settings ex_world ''PNG1'' ''up/scan.png'' ''generic'' (Some False)))
          ''PNG2'' ''scan.png'' ''generic'' (Some False)))
       ''PNG3'' ''scan.png'' ''generic'' (Some True))) \<and>
   fs_fault ex_env (sanitize_filename ''scan.png'') = None \<and>
   files (snd (process_file ex_env ex_settings
       (snd (process_file ex_env ex_settings
          (snd (process_file ex_env ex_settings ex_world ''PNG1'' ''up/scan.png'' ''generic'' (Some False)))
          ''PNG2'' ''scan.png'' ''generic'' (Some False)))
       ''PNG3'' ''scan.png'' ''generic'' (Some True))) (sanitize_filename ''scan.png'') = None \<and>
   \<not> isl (fst (process_file locked_env ex_settings stored_world ''PNG1'' ''scan.png'' ''generic'' (Some True))) \<and>
   fs_fault locked_env (sanitize_filename ''scan.png'') \<noteq> None \<and>
   files (snd (process_file locked_env ex_settings stored_world ''PNG1'' ''scan.png'' ''generic'' (Some True)))
     = files stored_world \<and>
   files ex_world (sanitize_filename ''scan.png'') = None \<and>
   delete_if_exists ex_env ex_world ''scan.png'' = ex_world"
proof -
  let ?p1 = "process_file ex_env ex_settings ex_world ''PNG1'' ''up/scan.png'' ''generic'' (Some False)"
  let ?p2 = "process_file ex_env ex_settings (snd ?p1) ''PNG2'' ''scan.png'' ''generic'' (Some False)"
  let ?p3 = "process_file ex_env ex_settings (snd ?p2) ''PNG3'' ''scan.png'' ''generic'' (Some True)"
  let ?p4 = "process_file locked_env ex_settings stored_world ''PNG1'' ''scan.png'' ''generic'' (Some True)"
  have ok1: "\<not> isl (fst ?p1)" by code_simp
  have ok2: "\<not> isl (fst ?p2)" by code_simp
  have ok3: "\<not> isl (fst ?p3)" by code_simp
  have ok4: "\<not> isl (fst ?p4)" by code_simp
  have sn: "sanitize_filename ''up/scan.png'' = sanitize_filename ''scan.png''" by code_simp
  have sn': "sanitize_filename ''scan.png'' = ''scan.png''" by code_simp
  have nf: "fs_fault ex_env (sanitize_filename ''scan.png'') = None" by code_simp
  have flt: "fs_fault locked_env (sanitize_filename ''scan.png'') \<noteq> None" by code_simp
  have e0: "files ex_world (sanitize_filename ''scan.png'') = None" by code_simp
  note t1 = retention_store_one_blob_per_name
    [where w = ex_world and E = ex_env and S = ex_settings
       and ba = "''PNG1''" and fna = "''up/scan.png''" and dta = "''generic''"
       and ra = "projr (fst ?p1)" and wa = "snd ?p1"
       and bb = "''PNG2''" and fnb = "''scan.png''" and dtb = "''generic''"
       and rb = "projr (fst ?p2)" and wb = "snd ?p2" and fn = "''scan.png''"]
  note t2 = retention_store_one_blob_per_name
    [where w = "snd ?p2" and E = ex_env and S = ex_settings
       and b = "''PNG3''" and fn = "''scan.png''" and dt = "''generic''"
       and r = "projr (fst ?p3)" and w' = "snd ?p3"]
  note t3 = retention_store_one_blob_per_name
    [where w = stored_world and E = locked_env and S = ex_settings
       and b = "''PNG1''" and fn = "''scan.png''" and dt = "''generic''"
       and r = "projr (fst ?p4)" and w' = "snd ?p4"]
  from t1 result_collapse [OF ok1] result_collapse [OF ok2] sn
  have a: "files (snd ?p2) (sanitize_filename ''scan.png'') = Some ''PNG2''"
    by blast
  from t2 result_collapse [OF ok3] nf
  have b: "files (snd ?p3) (sanitize_filename ''scan.png'') = None"
    by blast
  from t3 result_collapse [OF ok4] flt
  have d: "files (snd ?p4) = files stored_world"
    by blast
  from t1 e0 have c: "delete_if_exists ex_env ex_world ''scan.png'' = ex_world"
    by blast
  from ok1 ok2 ok3 ok4 sn sn' nf flt e0 a b c d show ?thesis
    by blast
qed

subsection \<open>C4: a failing upload directory\<close>

lemma write_failure_propagates:
  assumes "extract_pages E (w\<lparr>jobs := Suc (jobs w)\<rparr>) (file_ext fn) b = (Inr ps, w1)"
    and "fs_fault E (sanitize_filename fn) = Some e"
  shows "fst (process_file E S w b fn dt (Some False)) = Inl e"
  using assms by (simp add: process_file_def Let_def save_unique_by_name_def)

lemma delete_failure_swallowed:
  assumes "extract_pages E (w\<lparr>jobs := Suc (jobs w)\<rparr>) (file_ext fn) b = (Inr ps, w1)"
  shows "\<not> isl (fst (process_file E S w b fn dt (Some True))) \<and>
         pages (projr (fst (process_file E S w b fn dt (Some True)))) = ps"
  using assms by (simp add: process_file_def Let_def)

text \<open>
  C4 says that an error of the upload directory never makes a run fail whose
  extraction succeeded. An error of the unlink is swallowed by \<open>delete_if_exists\<close>,
  but an error of \<open>write_bytes\<close> in \<open>save_unique_by_name\<close> is not caught: with
  retention on and a directory that refuses \<open>scan.png\<close>, the extraction gives its
  page and \<open>process_file\<close> raises the error of the directory, while the same run on a
  directory that accepts the write returns the page.
\<close>

theorem store_write_failure_fails_run:
  "fst (extract_pages locked_env (ex_world\<lparr>jobs := Suc (jobs ex_world)\<rparr>) (file_ext ''scan.png'') ''PNG1'')
     = Inr [\<lparr>page_number = 1, page_text = ''scan of img''\<rparr>] \<and>
   fst (process_file locked_env ex_settings ex_world ''PNG1'' ''scan.png'' ''generic'' (Some False))
     = Inl (OtherError ''[Errno 13] Permission denied'') \<and>
   pages (projr (fst (process_file ex_env ex_settings ex_world ''PNG1'' ''scan.png'' ''generic'' (Some False))))
     = [\<lparr>page_number = 1, page_text = ''scan of img''\<rparr>] \<and>
   pages (projr (fst (process_file locked_env ex_settings ex_world ''PNG1'' ''scan.png'' ''generic'' (Some True))))
     = [\<lparr>page_number = 1, page_text = ''scan of img''\<rparr>]"
  by code_simp

subsection \<open>C9: the upscaling of small images\<close>

lemma ocr_preprocess_large:
  "1000 \<le> max (width im) (height im) \<Longrightarrow>
   ocr_preprocess im = Inr (sharpen (autocontrast (convert_L im))) \<and>
   width (sharpen (autocontrast (convert_L im))) = width im \<and>
   height (sharpen (autocontrast (convert_L im))) = height im"
  by (auto simp: ocr_preprocess_def Let_def autocontrast_def sharpen_def convert_L_def)

text \<open>
  C9 says that an image whose longer side is below 1000 pixels is scaled so that the
  longer side becomes exactly 1000. The code computes \<open>int(w * (1000 / max_side))\<close> in
  floating point and truncates: for a 19 by 10 image, \<open>1000 / 19\<close> rounds down to
  52.63157894736842, the product with 19 is 999.9999999999999, and the image is
  resized to 999 by 526.
\<close>

theorem upscale_19_by_10_gives_999:
  "fdiv 1000 19 = 7407236229227789 / 140737488355328 \<and>
   fmul 19 (fdiv 1000 19) = 8796093022207999 / 8796093022208 \<and>
   map_sum id (\<lambda>im. (width im, height im))
     (ocr_preprocess \<lparr>width = 19, height = 10, pixels = ''img'', applied = []\<rparr>) = Inr (999, 526)"
  by code_simp

subsection \<open>C1: the hybrid PDF strategy\<close>

lemma number_pages_length: "length (number_pages i ts) = length ts"
  by (induction ts arbitrary: i) auto

lemma number_pages_text: "map page_text (number_pages i ts) = ts"
  by (induction ts arbitrary: i) auto

lemma number_pages_numbers: "map page_number (number_pages i ts) = [i + 1..i + int (length ts)]"
proof (induction ts arbitrary: i)
  case Nil
  show ?case by simp
next
  case (Cons t ts)
  have "[i + 1..i + int (length (t # ts))] = (i + 1) # [i + 1 + 1..i + 1 + int (length ts)]"
    by (subst upto_rec1) (auto simp: algebra_simps)
  with Cons.IH [of "i + 1"] show ?case by simp
qed

lemma number_pages_append:
  "number_pages i (ts @ us) = number_pages i ts @ number_pages (i + int (length ts)) us"
  by (induction ts arbitrary: i) (auto simp: algebra_simps)

lemma ocr_image_eq:
  "ocr_image E w im =
     (case ocr_preprocess im of
        Inl e \<Rightarrow> (Inl e, w)
      | Inr im1 \<Rightarrow> (case image_to_string E im1 of
                      Inl e \<Rightarrow> (Inl e, w\<lparr>ocr_calls := ocr_calls w @ [im1]\<rparr>)
                    | Inr t \<Rightarrow> (Inr (strip t), w\<lparr>ocr_calls := ocr_calls w @ [im1]\<rparr>)))"
  by (simp add: ocr_image_def Let_def split: sum.splits)

lemma pdf_page_text_layer:
  "layer_text p \<noteq> [] \<Longrightarrow> pdf_page_text E w p = (Inr (layer_text p), w)"
  by (simp add: pdf_page_text_def Let_def)

lemma pdf_page_text_ocr:
  assumes "layer_text p = []" "\<not> isl (page_ocr_text E p)"
  shows "pdf_page_text E w p =
     (Inr (projr (page_ocr_text E p)), w\<lparr>ocr_calls := ocr_calls w @ [projr (page_raster E p)]\<rparr>)"
  using assms
  by (auto simp: pdf_page_text_def Let_def ocr_image_eq page_ocr_text_def page_raster_def
      split: sum.splits)

lemma pdf_page_text_fails:
  assumes "layer_text p = []" "isl (page_ocr_text E p)"
  shows "isl (fst (pdf_page_text E w p))"
  using assms
  by (auto simp: pdf_page_text_def Let_def ocr_image_eq page_ocr_text_def page_raster_def
      split: sum.splits)

lemma pdf_page_text_hybrid:
  assumes "ocr_succeeds E p"
  shows "pdf_page_text E w p =
     (Inr (hybrid_page_text E p),
      w\<lparr>ocr_calls := ocr_calls w @ map (\<lambda>p. projr (page_raster E p)) (filter (\<lambda>p. layer_text p = []) [p])\<rparr>)"
proof (cases "layer_text p = []")
  case True
  with assms have "\<not> isl (page_ocr_text E p)" by (simp add: ocr_succeeds_def)
  with True show ?thesis
    by (simp add: pdf_page_text_ocr hybrid_page_text_def)
next
  case False
  then show ?thesis
    by (simp add: pdf_page_text_layer hybrid_page_text_def)
qed

lemma pdf_pages_hybrid:
  assumes "list_all (ocr_succeeds E) rest"
  shows "pdf_pages E w i rest acc =
     (Inr (acc @ number_pages i (map (hybrid_page_text E) rest)),
      w\<lparr>ocr_calls := ocr_calls w
           @ map (\<lambda>p. projr (page_raster E p)) (filter (\<lambda>p. layer_text p = []) rest)\<rparr>)"
  using assms
proof (induction rest arbitrary: w i acc)
  case Nil
  show ?case by simp
next
  case (Cons p rest)
  then have p: "ocr_succeeds E p" and r: "list_all (ocr_succeeds E) rest"
    by simp_all
  show ?case
    by (simp add: pdf_page_text_hybrid [OF p] Cons.IH [OF r])
qed

lemma pdf_pages_returns:
  assumes "pdf_pages E w i rest acc = (Inr ps, w')"
  shows "list_all (ocr_succeeds E) rest"
  using assms
proof (induction rest arbitrary: w i acc)
  case Nil
  show ?case by simp
next
  case (Cons p rest)
  obtain res w1 where pt: "pdf_page_text E w p = (res, w1)"
    by (cases "pdf_page_text E w p")
  show ?case
  proof (cases res)
    case (Inl e)
    with pt Cons.prems show ?thesis by simp
  next
    case (Inr t)
    with pt Cons.prems have
      "pdf_pages E w1 (i + 1) rest (acc @ [\<lparr>page_number = i + 1, page_text = t\<rparr>]) = (Inr ps, w')"
      by simp
    then have r: "list_all (ocr_succeeds E) rest"
      by (rule Cons.IH)
    have "ocr_succeeds E p"
    proof (rule ccontr)
      assume "\<not> ocr_succeeds E p"
      then have "layer_text p = []" "isl (page_ocr_text E p)"
        by (simp_all add: ocr_succeeds_def split: if_splits)
      then have "isl (fst (pdf_page_text E w p))"
        by (rule pdf_page_text_fails)
      with pt Inr show False by simp
    qed
    with r show ?thesis by simp
  qed
qed

text \<open>
  C1, as the specification states it: a text layer that is readable and not empty
  once trimmed is used as the text of the page. The code uses the trimmed text: the
  first page of the example PDF has the layer \<open>" Hello "\<close> and gets the text
  \<open>"Hello"\<close>.
\<close>

theorem pdf_text_layer_verbatim_counterexample:
  "pdf_open ex_env ''%PDF'' = Inr [ex_page1, ex_page2] \<and>
   text_layer ex_page1 = Inr (Some '' Hello '') \<and>
   map page_text (projr (fst (extract_from_pdf ex_env ex_world ''%PDF''))) = [''Hello'', ''scan of p2''] \<and>
   ''Hello'' \<noteq> '' Hello ''"
  by code_simp

text \<open>
  C1, amended. For a PDF that opens, with pages \<open>doc\<close>, whose pages with an empty
  text layer are rendered and recognised without an exception: the extraction
  returns one page per page of \<open>doc\<close>, numbered 1 to N in document order; the text of
  a page whose layer (absent and unreadable layers count as empty) is not empty once
  trimmed is the trimmed layer, and the text of any other page is the trimmed output
  of Tesseract on the page rendered at the scale \<open>300 / 72\<close> and preprocessed; the
  images handed to Tesseract are those of the pages with an empty layer, in order,
  and no others. Conversely, an extraction that returns is of this kind.
\<close>

theorem extract_from_pdf_hybrid:
  "(pdf_open E b = Inr doc \<and> list_all (ocr_succeeds E) doc \<longrightarrow>
      extract_from_pdf E w b =
        (Inr (number_pages 0 (map (hybrid_page_text E) doc)),
         w\<lparr>ocr_calls := ocr_calls w
              @ map (\<lambda>p. projr (page_raster E p)) (filter (\<lambda>p. layer_text p = []) doc)\<rparr>)) \<and>
   (extract_from_pdf E w b = (Inr ps, w') \<longrightarrow>
      (\<exists>doc. pdf_open E b = Inr doc \<and> list_all (ocr_succeeds E) doc)) \<and>
   length (number_pages 0 ts) = length ts \<and>
   map page_number (number_pages 0 ts) = [1..int (length ts)] \<and>
   map page_text (number_pages 0 ts) = ts"
proof (intro conjI impI)
  assume "pdf_open E b = Inr doc \<and> list_all (ocr_succeeds E) doc"
  then show "extract_from_pdf E w b =
        (Inr (number_pages 0 (map (hybrid_page_text E) doc)),
         w\<lparr>ocr_calls := ocr_calls w
              @ map (\<lambda>p. projr (page_raster E p)) (filter (\<lambda>p. layer_text p = []) doc)\<rparr>)"
    by (simp add: extract_from_pdf_def pdf_pages_hybrid)
next
  assume r: "extract_from_pdf E w b = (Inr ps, w')"
  show "\<exists>doc. pdf_open E b = Inr doc \<and> list_all (ocr_succeeds E) doc"
  proof (cases "pdf_open E b")
    case (Inl e)
    with r show ?thesis by (simp add: extract_from_pdf_def)
  next
    case (Inr doc)
    with r have "pdf_pages E w 0 doc [] = (Inr ps, w')"
      by (simp add: extract_from_pdf_def)
    then have "list_all (ocr_succeeds E) doc"
      by (rule pdf_pages_returns)
    with Inr show ?thesis by simp
  qed
next
  show "length (number_pages 0 ts) = length ts"
    by (rule number_pages_length)
  show "map page_number (number_pages 0 ts) = [1..int (length ts)]"
    using number_pages_numbers [of 0 ts] by simp
  show "map page_text (number_pages 0 ts) = ts"
    by (rule number_pages_text)
qed

theorem extract_from_pdf_hybrid_witness:
  "pdf_open ex_env ''%PDF'' = Inr [ex_page1, ex_page2] \<and>
   list_all (ocr_succeeds ex_env) [ex_page1, ex_page2] \<and>
   extract_from_pdf ex_env ex_world ''%PDF'' =
     (Inr (number_pages 0 (map (hybrid_page_text ex_env) [ex_page1, ex_page2])),
      ex_world\<lparr>ocr_calls := ocr_calls ex_world
         @ map (\<lambda>p. projr (page_raster ex_env p))
             (filter (\<lambda>p. layer_text p = []) [ex_page1, ex_page2])\<rparr>) \<and>
   number_pages 0 (map (hybrid_page_text ex_env) [ex_page1, ex_page2]) =
     [\<lparr>page_number = 1, page_text = ''Hello''\<rparr>, \<lparr>page_number = 2, page_text = ''scan of p2''\<rparr>] \<and>
   map (\<lambda>p. projr (page_raster ex_env p)) (filter (\<lambda>p. layer_text p = []) [ex_page1, ex_page2]) =
     [\<lparr>width = 2550, height = 3300, pixels = ''p2'',
       applied = [ConvertL, Autocontrast, Sharpen]\<rparr>] \<and>
   fdiv 300 72 = 4691249611844267 / 1125899906842624"
proof -
  have o: "pdf_open ex_env ''%PDF'' = Inr [ex_page1, ex_page2]"
    by code_simp
  have a: "list_all (ocr_succeeds ex_env) [ex_page1, ex_page2]"
    by code_simp
  have v: "number_pages 0 (map (hybrid_page_text ex_env) [ex_page1, ex_page2]) =
     [\<lparr>page_number = 1, page_text = ''Hello''\<rparr>, \<lparr>page_number = 2, page_text = ''scan of p2''\<rparr>]"
    by code_simp
  have c: "map (\<lambda>p. projr (page_raster ex_env p)) (filter (\<lambda>p. layer_text p = []) [ex_page1, ex_page2]) =
     [\<lparr>width = 2550, height = 3300, pixels = ''p2'',
       applied = [ConvertL, Autocontrast, Sharpen]\<rparr>]"
    by code_simp
  have s: "fdiv 300 72 = 4691249611844267 / 1125899906842624"
    by code_simp
  note t = extract_from_pdf_hybrid
    [where E = ex_env and b = "''%PDF''" and doc = "[ex_page1, ex_page2]" and w = ex_world]
  from t o a have
    "extract_from_pdf ex_env ex_world ''%PDF'' =
     (Inr (number_pages 0 (map (hybrid_page_text ex_env) [ex_page1, ex_page2])),
      ex_world\<lparr>ocr_calls := ocr_calls ex_world
         @ map (\<lambda>p. projr (page_raster ex_env p))
             (filter (\<lambda>p. layer_text p = []) [ex_page1, ex_page2])\<rparr>)"
    by blast
  with o a v c s show ?thesis
    by blast
qed

subsection \<open>C3: the batch\<close>

lemma batch_file_items:
  "items (batch_file E S dt zr st f) =
     items st @ [batch_item E S dt zr (seen_names st, seen_hashes st) (bworld st) f]"
proof -
  obtain res w1 where
    p: "process_file E S (bworld st) (upload_contents f) (upload_name f) dt (Some zr) = (res, w1)"
    by (cases "process_file E S (bworld st) (upload_contents f) (upload_name f) dt (Some zr)")
  show ?thesis
    using p by (cases res) (simp_all add: batch_file_def batch_item_def Let_def)
qed

lemma batch_file_sets:
  "(seen_names (batch_file E S dt zr st f), seen_hashes (batch_file E S dt zr st f)) =
     register E S (seen_names st, seen_hashes st) f"
proof -
  obtain res w1 where
    p: "process_file E S (bworld st) (upload_contents f) (upload_name f) dt (Some zr) = (res, w1)"
    by (cases "process_file E S (bworld st) (upload_contents f) (upload_name f) dt (Some zr)")
  show ?thesis
    using p
    by (cases res) (auto simp: batch_file_def register_def accepted_def Let_def insert_absorb)
qed

lemma batch_fold_sets:
  "(seen_names (foldl (batch_file E S dt zr) st fs), seen_hashes (foldl (batch_file E S dt zr) st fs)) =
     foldl (register E S) (seen_names st, seen_hashes st) fs"
proof (induction fs arbitrary: st)
  case Nil
  show ?case by simp
next
  case (Cons f fs)
  show ?case
    using Cons.IH [of "batch_file E S dt zr st f"]
    by (simp add: batch_file_sets)
qed

lemma batch_reached_sets:
  "(seen_names (batch_reached E S dt zr w fs k), seen_hashes (batch_reached E S dt zr w fs k)) =
     dedup_sets E S (take k fs)"
  by (simp add: batch_reached_def dedup_sets_def batch_fold_sets batch_init_def)

lemma batch_fold_items:
  "items (foldl (batch_file E S dt zr) (batch_init w) fs) =
     map (\<lambda>k. batch_item E S dt zr (dedup_sets E S (take k fs))
                (bworld (batch_reached E S dt zr w fs k)) (fs ! k)) [0..<length fs]"
proof (induction fs rule: rev_induct)
  case Nil
  show ?case by (simp add: batch_init_def)
next
  case (snoc f fs)
  let ?st = "foldl (batch_file E S dt zr) (batch_init w) fs"
  have old: "map (\<lambda>k. batch_item E S dt zr (dedup_sets E S (take k (fs @ [f])))
                (bworld (batch_reached E S dt zr w (fs @ [f]) k)) ((fs @ [f]) ! k)) [0..<length fs]
      = map (\<lambda>k. batch_item E S dt zr (dedup_sets E S (take k fs))
                (bworld (batch_reached E S dt zr w fs k)) (fs ! k)) [0..<length fs]"
    by (rule map_cong) (simp_all add: batch_reached_def nth_append)
  have sets: "(seen_names ?st, seen_hashes ?st) = dedup_sets E S fs"
    using batch_reached_sets [of E S dt zr w fs "length fs"] by (simp add: batch_reached_def)
  have new: "batch_item E S dt zr (dedup_sets E S (take (length fs) (fs @ [f])))
                (bworld (batch_reached E S dt zr w (fs @ [f]) (length fs))) ((fs @ [f]) ! length fs)
      = batch_item E S dt zr (seen_names ?st, seen_hashes ?st) (bworld ?st) f"
    by (simp add: sets batch_reached_def)
  have "items (foldl (batch_file E S dt zr) (batch_init w) (fs @ [f])) =
      items ?st @ [batch_item E S dt zr (seen_names ?st, seen_hashes ?st) (bworld ?st) f]"
    by (simp add: batch_file_items)
  with snoc.IH old new show ?case
    by simp
qed

lemma batch_item_filename: "item_filename (batch_item E S dt zr NH w f) = upload_name f"
  by (cases "fst (process_file E S w (upload_contents f) (upload_name f) dt (Some zr))")
     (simp_all add: batch_item_def Let_def error_item_def skipped_item_def response_item_def)

lemma dedup_sets_snoc: "dedup_sets E S (fs @ [f]) = register E S (dedup_sets E S fs) f"
  by (simp add: dedup_sets_def)

lemma dedup_sets_names: "fst (dedup_sets E S fs) = upload_name ` set (filter (accepted S) fs)"
proof (induction fs rule: rev_induct)
  case Nil
  show ?case by (simp add: dedup_sets_def)
next
  case (snoc f fs)
  then show ?case
    by (auto simp: dedup_sets_snoc register_def)
qed

lemma extract_batch_too_many:
  "int (length fs) > MAX_DOCS_PER_BATCH S \<Longrightarrow>
   extract_batch E S w fs dt z = (Inl (HTTPException 400 (too_many_message S (length fs))), w)"
  by (simp add: extract_batch_def Let_def)

lemma ocr_image_fst: "fst (ocr_image E w im) = fst (ocr_image E w' im)"
  by (simp add: ocr_image_eq split: sum.splits)

lemma pdf_page_text_fst: "fst (pdf_page_text E w p) = fst (pdf_page_text E w' p)"
proof (cases "layer_text p = []")
  case True
  show ?thesis
  proof (cases "pdf_render E p (fdiv 300 72)")
    case (Inl e)
    with True show ?thesis by (simp add: pdf_page_text_def)
  next
    case (Inr im)
    with True ocr_image_fst [of E w im w'] show ?thesis by (simp add: pdf_page_text_def)
  qed
next
  case False
  then show ?thesis by (simp add: pdf_page_text_def Let_def)
qed

lemma pdf_pages_fst: "fst (pdf_pages E w i rest acc) = fst (pdf_pages E w' i rest acc)"
proof (induction rest arbitrary: w w' i acc)
  case Nil
  show ?case by simp
next
  case (Cons p rest)
  obtain res w1 where a: "pdf_page_text E w p = (res, w1)"
    by (cases "pdf_page_text E w p")
  obtain res' w1' where b: "pdf_page_text E w' p = (res', w1')"
    by (cases "pdf_page_text E w' p")
  have eq: "res' = res"
    using pdf_page_text_fst [of E w p w'] a b by simp
  show ?case
  proof (cases res)
    case (Inl e)
    with a b eq show ?thesis by simp
  next
    case (Inr t)
    with a b eq Cons.IH [of w1 "i + 1" "acc @ [\<lparr>page_number = i + 1, page_text = t\<rparr>]" w1']
    show ?thesis by simp
  qed
qed

lemma extract_pages_fst: "fst (extract_pages E w ext b) = fst (extract_pages E w' ext b)"
proof -
  have "fst (extract_from_pdf E w b) = fst (extract_from_pdf E w' b)"
    by (cases "pdf_open E b") (simp_all add: extract_from_pdf_def pdf_pages_fst)
  moreover have "fst (extract_from_image E w b) = fst (extract_from_image E w' b)"
  proof (cases "image_open E b")
    case (Inl e)
    then show ?thesis by (simp add: extract_from_image_def)
  next
    case (Inr im)
    obtain res w1 where a: "ocr_image E w im = (res, w1)"
      by (cases "ocr_image E w im")
    obtain res' w1' where b: "ocr_image E w' im = (res', w1')"
      by (cases "ocr_image E w' im")
    have "res' = res"
      using ocr_image_fst [of E w im w'] a b by simp
    with Inr a b show ?thesis
      by (cases res) (simp_all add: extract_from_image_def)
  qed
  ultimately show ?thesis
    by (simp add: extract_pages_def)
qed

text \<open>
  The outcome of \<open>process_file\<close> depends on the state through the job counter only
  (it picks the job identifier and the elapsed time).
\<close>

lemma process_file_fst:
  assumes "jobs w = jobs w'"
  shows "fst (process_file E S w b fn dt zr) = fst (process_file E S w' b fn dt zr)"
proof -
  obtain res w1 where a: "extract_pages E (w\<lparr>jobs := Suc (jobs w)\<rparr>) (file_ext fn) b = (res, w1)"
    by (cases "extract_pages E (w\<lparr>jobs := Suc (jobs w)\<rparr>) (file_ext fn) b")
  obtain res' w1' where b: "extract_pages E (w'\<lparr>jobs := Suc (jobs w')\<rparr>) (file_ext fn) b = (res', w1')"
    by (cases "extract_pages E (w'\<lparr>jobs := Suc (jobs w')\<rparr>) (file_ext fn) b")
  have eq: "res' = res"
    using extract_pages_fst [of E "w\<lparr>jobs := Suc (jobs w)\<rparr>" "file_ext fn" b "w'\<lparr>jobs := Suc (jobs w')\<rparr>"] a b
    by simp
  show ?thesis
  proof (cases res)
    case (Inl e)
    with a b eq show ?thesis by (simp add: process_file_def Let_def)
  next
    case (Inr ps)
    with a b eq assms show ?thesis
      by (cases "fs_fault E (sanitize_filename fn)")
         (simp_all add: process_file_def Let_def save_unique_by_name_def)
  qed
qed

lemma batch_item_state:
  "jobs wa = jobs wb \<Longrightarrow> batch_item E S dt zr NH wa f = batch_item E S dt zr NH wb f"
  using process_file_fst [of wa wb E S "upload_contents f" "upload_name f" dt "Some zr"]
  by (simp add: batch_item_def Let_def)

text \<open>
  C3: a batch of at most \<open>MAX_DOCS_PER_BATCH\<close> files returns a response with one
  item per file, in the order of the files. The item of the file of index \<open>k\<close> is
  the one of the ordered algorithm \<open>batch_item\<close>, run with the dedup sets of the
  files before it and in the state the loop has reached: an error item for empty
  bytes, an error item for oversized bytes, a skipped item with reason
  \<open>duplicate_filename_in_batch\<close> and no hash for a registered name, a skipped item
  with reason \<open>duplicate_content_in_batch\<close> and the hash for a registered hash, and
  else the response of \<open>process_file\<close>, or an error item with its message when it
  raises. The dedup sets do not depend on any extraction: the registered names are
  the names of the accepted files so far, and a file registers its hash when it is
  accepted and its name was not registered. Of the state the loop has reached, an
  item depends on the job counter only, not on the upload directory.
\<close>

theorem extract_batch_items:
  "(int (length fs) \<le> MAX_DOCS_PER_BATCH S \<longrightarrow>
     (\<exists>resp. extract_batch E S w fs dt z =
          (Inr resp, bworld (batch_reached E S dt (parse_bool z (ZERO_RETENTION_DEFAULT S)) w fs (length fs))) \<and>
        length (results resp) = length fs \<and>
        map item_filename (results resp) = map upload_name fs \<and>
        (\<forall>k<length fs.
           results resp ! k =
             batch_item E S dt (parse_bool z (ZERO_RETENTION_DEFAULT S))
               (dedup_sets E S (take k fs))
               (bworld (batch_reached E S dt (parse_bool z (ZERO_RETENTION_DEFAULT S)) w fs k))
               (fs ! k)))) \<and>
   fst (dedup_sets E S fs) = upload_name ` set (filter (accepted S) fs) \<and>
   dedup_sets E S (fs @ [f]) =
     (if accepted S f \<and> upload_name f \<notin> fst (dedup_sets E S fs)
      then (insert (upload_name f) (fst (dedup_sets E S fs)),
            insert (sha256_hexdigest E (upload_contents f)) (snd (dedup_sets E S fs)))
      else dedup_sets E S fs) \<and>
   (jobs wa = jobs wb \<longrightarrow> batch_item E S dt zr NH wa f = batch_item E S dt zr NH wb f)"
proof (intro conjI impI)
  show "batch_item E S dt zr NH wa f = batch_item E S dt zr NH wb f" if "jobs wa = jobs wb"
    using that by (rule batch_item_state)
next
  let ?zr = "parse_bool z (ZERO_RETENTION_DEFAULT S)"
  let ?item = "\<lambda>k. batch_item E S dt ?zr (dedup_sets E S (take k fs))
                (bworld (batch_reached E S dt ?zr w fs k)) (fs ! k)"
  let ?resp = "\<lparr>batch_status = ''success'', batch_document_type = dt,
                batch_zero_retention = ?zr, max_docs_allowed = MAX_DOCS_PER_BATCH S,
                results = map ?item [0..<length fs]\<rparr>"
  assume le: "int (length fs) \<le> MAX_DOCS_PER_BATCH S"
  then have x: "extract_batch E S w fs dt z =
      (Inr ?resp, bworld (batch_reached E S dt ?zr w fs (length fs)))"
    by (simp add: extract_batch_def Let_def batch_fold_items batch_reached_def)
  have n: "map item_filename (map ?item [0..<length fs]) = map upload_name fs"
  proof -
    have "map item_filename (map ?item [0..<length fs]) = map (\<lambda>k. upload_name (fs ! k)) [0..<length fs]"
      by (simp add: batch_item_filename)
    also have "\<dots> = map upload_name (map (\<lambda>k. fs ! k) [0..<length fs])"
      by simp
    also have "\<dots> = map upload_name fs"
      by (simp only: map_nth)
    finally show ?thesis .
  qed
  have "length (results ?resp) = length fs \<and>
        map item_filename (results ?resp) = map upload_name fs \<and>
        (\<forall>k<length fs. results ?resp ! k = ?item k)"
    using n by simp
  with x show "\<exists>resp. extract_batch E S w fs dt z =
          (Inr resp, bworld (batch_reached E S dt ?zr w fs (length fs))) \<and>
        length (results resp) = length fs \<and>
        map item_filename (results resp) = map upload_name fs \<and>
        (\<forall>k<length fs. results resp ! k = ?item k)"
    by blast
next
  show "fst (dedup_sets E S fs) = upload_name ` set (filter (accepted S) fs)"
    by (rule dedup_sets_names)
next
  show "dedup_sets E S (fs @ [f]) =
     (if accepted S f \<and> upload_name f \<notin> fst (dedup_sets E S fs)
      then (insert (upload_name f) (fst (dedup_sets E S fs)),
            insert (sha256_hexdigest E (upload_contents f)) (snd (dedup_sets E S fs)))
      else dedup_sets E S fs)"
    by (simp add: dedup_sets_snoc register_def)
qed

theorem extract_batch_items_witness:
  "int (length ex_batch) \<le> MAX_DOCS_PER_BATCH ex_settings \<and>
   \<not> isl (fst (extract_batch ex_env ex_settings ex_world ex_batch ''generic'' (Some ''false''))) \<and>
   length (results (projr (fst (extract_batch ex_env ex_settings ex_world ex_batch ''generic'' (Some ''false'')))))
     = length ex_batch \<and>
   map item_filename
     (results (projr (fst (extract_batch ex_env ex_settings ex_world ex_batch ''generic'' (Some ''false'')))))
     = map upload_name ex_batch \<and>
   results (projr (fst (extract_batch ex_env ex_settings ex_world ex_batch ''generic'' (Some ''false'')))) ! 1
     = batch_item ex_env ex_settings ''generic''
         (parse_bool (Some ''false'') (ZERO_RETENTION_DEFAULT ex_settings))
         (dedup_sets ex_env ex_settings (take 1 ex_batch))
         (bworld (batch_reached ex_env ex_settings ''generic''
            (parse_bool (Some ''false'') (ZERO_RETENTION_DEFAULT ex_settings)) ex_world ex_batch 1))
         (ex_batch ! 1) \<and>
   map (\<lambda>it. (item_filename it, file_hash it, skipped_duplicate it, reason it, error it))
     (results (projr (fst (extract_batch ex_env ex_settings ex_world ex_batch ''generic'' (Some ''false'')))))
     = [(''a.docx'', ''sha:DOCX'', False, None, None),
        (''a.docx'', [], True, Some ''duplicate_filename_in_batch'', None),
        (''b.docx'', ''sha:DOCX'', True, Some ''duplicate_content_in_batch'', None),
        (''c.xyz'', [], False, None, Some ''Unsupported file type: .xyz''),
        (''document'', [], False, None, Some ''Empty file'')] \<and>
   map_option pages (response (results (projr (fst
      (extract_batch ex_env ex_settings ex_world ex_batch ''generic'' (Some ''false'')))) ! 0))
     = Some [\<lparr>page_number = 1, page_text = ''Title'' @ [CHR 0x0A] @ '' Body''\<rparr>]"
proof -
  let ?x = "extract_batch ex_env ex_settings ex_world ex_batch ''generic'' (Some ''false'')"
  have le: "int (length ex_batch) \<le> MAX_DOCS_PER_BATCH ex_settings"
    by (simp add: ex_batch_def ex_settings_def)
  have k: "1 < length ex_batch"
    by (simp add: ex_batch_def)
  have v: "map (\<lambda>it. (item_filename it, file_hash it, skipped_duplicate it, reason it, error it))
     (results (projr (fst ?x)))
     = [(''a.docx'', ''sha:DOCX'', False, None, None),
        (''a.docx'', [], True, Some ''duplicate_filename_in_batch'', None),
        (''b.docx'', ''sha:DOCX'', True, Some ''duplicate_content_in_batch'', None),
        (''c.xyz'', [], False, None, Some ''Unsupported file type: .xyz''),
        (''document'', [], False, None, Some ''Empty file'')]"
    by code_simp
  have p: "map_option pages (response (results (projr (fst ?x)) ! 0))
     = Some [\<lparr>page_number = 1, page_text = ''Title'' @ [CHR 0x0A] @ '' Body''\<rparr>]"
    by code_simp
  note t = extract_batch_items
    [where fs = ex_batch and S = ex_settings and E = ex_env and w = ex_world
       and dt = "''generic''" and z = "Some ''false''", THEN conjunct1]
  from t le obtain resp where
    x: "fst ?x = Inr resp" and
    l: "length (results resp) = length ex_batch" and
    n: "map item_filename (results resp) = map upload_name ex_batch" and
    a: "\<forall>k<length ex_batch.
           results resp ! k =
             batch_item ex_env ex_settings ''generic''
               (parse_bool (Some ''false'') (ZERO_RETENTION_DEFAULT ex_settings))
               (dedup_sets ex_env ex_settings (take k ex_batch))
               (bworld (batch_reached ex_env ex_settings ''generic''
                  (parse_bool (Some ''false'') (ZERO_RETENTION_DEFAULT ex_settings)) ex_world ex_batch k))
               (ex_batch ! k)"
    by fastforce
  from a k have a1: "results resp ! 1 =
             batch_item ex_env ex_settings ''generic''
               (parse_bool (Some ''false'') (ZERO_RETENTION_DEFAULT ex_settings))
               (dedup_sets ex_env ex_settings (take 1 ex_batch))
               (bworld (batch_reached ex_env ex_settings ''generic''
                  (parse_bool (Some ''false'') (ZERO_RETENTION_DEFAULT ex_settings)) ex_world ex_batch 1))
               (ex_batch ! 1)"
    by blast
  from x have r: "projr (fst ?x) = resp" and i: "\<not> isl (fst ?x)"
    by simp_all
  from le i l n a1 v p show ?thesis
    unfolding r by blast
qed

end
